theory Spec2Isabelle
  imports Complex_Main "HOL-Library.Sublist"
begin

section \<open>Python values, strings and exceptions\<close>

text \<open>
  The two modules \<^verbatim>\<open>seller.py\<close> (Ozon) and \<^verbatim>\<open>market.py\<close> (Yandex Market) read rows of a
  spreadsheet as dictionaries and reconcile them with the list of offer ids of a shop.
  A Python \<^verbatim>\<open>str\<close> is modelled as a \<^typ>\<open>string\<close> holding its UTF-8 bytes: every
  character the code tests for (digits, the point, \<^verbatim>\<open>>10\<close>) is ASCII, and no byte of a
  multi-byte UTF-8 sequence is an ASCII byte, so splitting, digit filtering and equality
  agree with Python on code points.

  A cell of a row is \<^verbatim>\<open>None\<close> (also the value of \<^verbatim>\<open>dict.get\<close> for an absent key), a
  \<^verbatim>\<open>str\<close> or an \<^verbatim>\<open>int\<close>. Floating point cells are outside the model.
\<close>

datatype pyval = PNone | PStr string | PInt int

datatype py_error = ValueError | TypeError | AttributeError

subsection \<open>\<^verbatim>\<open>str(x)\<close>\<close>

definition digit_char :: "nat \<Rightarrow> char" where
  "digit_char d = char_of (48 + d)"

function str_nat :: "nat \<Rightarrow> string" where
  "str_nat n = (if n < 10 then [digit_char n] else str_nat (n div 10) @ [digit_char (n mod 10)])"
  by pat_completeness auto
termination
  by (relation "measure (\<lambda>n. n)") auto

declare str_nat.simps [simp del]

definition str_int :: "int \<Rightarrow> string" where
  "str_int i = (if i < 0 then CHR ''-'' # str_nat (nat (- i)) else str_nat (nat i))"

fun py_str :: "pyval \<Rightarrow> string" where
  "py_str PNone = ''None''"
| "py_str (PStr s) = s"
| "py_str (PInt i) = str_int i"

subsection \<open>\<^verbatim>\<open>int(x)\<close>\<close>

text \<open>
  What \<^verbatim>\<open>int\<close> makes of a text depends on the interpreter that runs the modules, in two
  ways that are no part of the repository, so they are parameters of the model:
  \<^item> the limit on the number of digits, \<^verbatim>\<open>sys.get_int_max_str_digits()\<close>: 4300 unless it is
    set otherwise, 0 for no limit (also the case of the versions that have no limit);
  \<^item> the Unicode database: the characters beyond ASCII that are white space, and those
    that are decimal digits, with their values. The tables hold each character as its
    UTF-8 bytes.
\<close>

record interp =
  int_max_str_digits :: nat
  unicode_space :: "string list"
  unicode_decimal :: "(string \<times> nat) list"

definition is_digit :: "char \<Rightarrow> bool" where
  "is_digit c = (48 \<le> (of_char c :: nat) \<and> (of_char c :: nat) \<le> 57)"

definition digit_val :: "char \<Rightarrow> nat" where
  "digit_val c = of_char c - 48"

definition is_space :: "char \<Rightarrow> bool" where
  "is_space c = ((of_char c :: nat) \<in> {9, 10, 11, 12, 13, 32})"

text \<open>
  Before it parses, \<^verbatim>\<open>int\<close> turns a text with characters beyond ASCII into ASCII: a
  character below 127 stays, white space becomes a blank, a decimal digit becomes the
  ASCII digit of its value, and at any other character the text ends with a question mark
  (on which the parser fails). \<open>unicode_class\<close> looks the character at the head of a text
  up in the tables and gives the ASCII character for it and the number of its bytes.
\<close>

definition unicode_class :: "interp \<Rightarrow> string \<Rightarrow> (char \<times> nat) option" where
  "unicode_class I s =
     (case find (\<lambda>e. e \<noteq> [] \<and> take (length e) s = e) (unicode_space I) of
        Some e \<Rightarrow> Some (CHR '' '', length e)
      | None \<Rightarrow>
          (case find (\<lambda>(e, d). e \<noteq> [] \<and> take (length e) s = e) (unicode_decimal I) of
             Some (e, d) \<Rightarrow> if d < 10 then Some (digit_char d, length e) else None
           | None \<Rightarrow> None))"

text \<open>The first argument counts the bytes still to skip of a character already turned.\<close>

fun to_ascii_from :: "nat \<Rightarrow> interp \<Rightarrow> string \<Rightarrow> string" where
  "to_ascii_from k I [] = []"
| "to_ascii_from (Suc k) I (c # cs) = to_ascii_from k I cs"
| "to_ascii_from 0 I (c # cs) =
     (if (of_char c :: nat) < 127 then c # to_ascii_from 0 I cs
      else (case unicode_class I (c # cs) of
              None \<Rightarrow> ''?''
            | Some (a, n) \<Rightarrow> a # to_ascii_from (n - 1) I cs))"

definition to_ascii :: "interp \<Rightarrow> string \<Rightarrow> string" where
  "to_ascii I s = to_ascii_from 0 I s"

text \<open>
  The parser, on ASCII: white space around, an optional sign, then digits, where single
  underscores may separate digits; anything else raises \<^verbatim>\<open>ValueError\<close>, and so do more
  digits than the limit allows (the limit is looked at for more than 640 digits only).
  \<open>scan_digits\<close> reads the digits: it returns the number read so far, the count of its
  digits, and the text that follows.
\<close>

fun scan_digits :: "string \<Rightarrow> nat \<Rightarrow> nat \<Rightarrow> (nat \<times> nat \<times> string) option" where
  "scan_digits [] acc k = Some (acc, k, [])"
| "scan_digits (c # cs) acc k =
     (if is_digit c then scan_digits cs (acc * 10 + digit_val c) (Suc k)
      else if c = CHR ''_'' then
        (case cs of
           [] \<Rightarrow> None
         | d # ds \<Rightarrow>
             if is_digit d then scan_digits ds (acc * 10 + digit_val d) (Suc k) else None)
      else Some (acc, k, c # cs))"

definition int_of_digits :: "interp \<Rightarrow> int \<Rightarrow> string \<Rightarrow> py_error + int" where
  "int_of_digits I sign s =
     (case s of
        [] \<Rightarrow> Inl ValueError
      | d # ds \<Rightarrow>
          if is_digit d then
            (case scan_digits ds (digit_val d) 1 of
               None \<Rightarrow> Inl ValueError
             | Some (n, k, rest) \<Rightarrow>
                 if \<not> list_all is_space rest then Inl ValueError
                 else if 640 < k \<and> 0 < int_max_str_digits I \<and> int_max_str_digits I < k
                   then Inl ValueError
                 else Inr (sign * int n))
          else Inl ValueError)"

definition int_of_str :: "interp \<Rightarrow> string \<Rightarrow> py_error + int" where
  "int_of_str I s =
     (case dropWhile is_space (to_ascii I s) of
        [] \<Rightarrow> Inl ValueError
      | c # cs \<Rightarrow>
          if c = CHR ''+'' then int_of_digits I 1 cs
          else if c = CHR ''-'' then int_of_digits I (- 1) cs
          else int_of_digits I 1 (c # cs))"

text \<open>
  \<^verbatim>\<open>int(x)\<close>: an \<^verbatim>\<open>int\<close> is returned as it is, \<^verbatim>\<open>None\<close> raises \<^verbatim>\<open>TypeError\<close>, and a
  \<^verbatim>\<open>str\<close> is parsed in base 10.
\<close>

fun py_int :: "interp \<Rightarrow> pyval \<Rightarrow> py_error + int" where
  "py_int I PNone = Inl TypeError"
| "py_int I (PStr s) = int_of_str I s"
| "py_int I (PInt i) = Inr i"

text \<open>
  An interpreter for the instances that are computed below: the limit of 4300 digits, and
  tables with one white space, U+00A0, and one decimal digit, U+0667 with the value 7.
\<close>

abbreviation small_interp :: interp where
  "small_interp \<equiv>
     \<lparr>int_max_str_digits = 4300, unicode_space = [[CHR 0xC2, CHR 0xA0]],
      unicode_decimal = [([CHR 0xD9, CHR 0xA7], 7)]\<rparr>"

section \<open>Rows of the stock file\<close>

text \<open>
  A row of \<^verbatim>\<open>watch_remnants\<close> is a dictionary; the code reads three keys of it with
  \<^verbatim>\<open>watch.get\<close>: the code, the quantity and the price of a watch (the field names
  transliterate the Russian keys). The record holds the value \<^verbatim>\<open>get\<close> returns for each
  of them (\<^const>\<open>PNone\<close> for an absent key).
\<close>

record watch =
  Kod :: pyval
  Kolichestvo :: pyval
  Tsena :: pyval

text \<open>\<^verbatim>\<open>str(watch.get(...))\<close> of the code, the text that is compared with the offer ids.\<close>

abbreviation watch_code :: "watch \<Rightarrow> string" where
  "watch_code w \<equiv> py_str (Kod w)"

section \<open>\<^verbatim>\<open>seller.py\<close>: price conversion and batches\<close>

subsection \<open>\<^verbatim>\<open>price_conversion\<close>\<close>

text \<open>\<^verbatim>\<open>s.split(sep)\<close> for a separator of one character: never empty.\<close>

fun split_on :: "char \<Rightarrow> string \<Rightarrow> string list" where
  "split_on sep [] = [[]]"
| "split_on sep (c # cs) =
     (if c = sep then [] # split_on sep cs
      else (case split_on sep cs of
              [] \<Rightarrow> [[c]]
            | p # ps \<Rightarrow> (c # p) # ps))"

text \<open>\<^verbatim>\<open>re.sub("[^0-9]", "", s)\<close>: every character outside \<^verbatim>\<open>0\<close>..\<^verbatim>\<open>9\<close> is deleted.\<close>

definition re_sub_non_digits :: "string \<Rightarrow> string" where
  "re_sub_non_digits s = filter is_digit s"

text \<open>
  \<^verbatim>\<open>return re.sub("[^0-9]", "", price.split(".")[0])\<close>. The result is a \<^verbatim>\<open>str\<close>.
  A value without a \<^verbatim>\<open>split\<close> method raises \<^verbatim>\<open>AttributeError\<close>.
\<close>

fun price_conversion :: "pyval \<Rightarrow> py_error + string" where
  "price_conversion (PStr s) = Inr (re_sub_non_digits (hd (split_on CHR ''.'' s)))"
| "price_conversion PNone = Inl AttributeError"
| "price_conversion (PInt i) = Inl AttributeError"

subsection \<open>\<^verbatim>\<open>divide\<close>\<close>

text \<open>
  \<^verbatim>\<open>for i in range(0, len(lst), n): yield lst[i : i + n]\<close>. The loop over the range is a
  recursion on the index \<open>i\<close>; a step of 0 makes \<^verbatim>\<open>range\<close> raise \<^verbatim>\<open>ValueError\<close>, and a
  negative step gives the empty range.
\<close>

function divide_from :: "'a list \<Rightarrow> nat \<Rightarrow> nat \<Rightarrow> 'a list list" where
  "divide_from lst n i =
     (if n = 0 \<or> length lst \<le> i then []
      else take n (drop i lst) # divide_from lst n (i + n))"
  by pat_completeness auto
termination
  by (relation "measure (\<lambda>(lst, n, i). length lst - i)") auto

declare divide_from.simps [simp del]

definition divide :: "'a list \<Rightarrow> int \<Rightarrow> py_error + 'a list list" where
  "divide lst n =
     (if n = 0 then Inl ValueError
      else if n < 0 then Inr []
      else Inr (divide_from lst (nat n) 0))"

section \<open>Reconciliation\<close>

subsection \<open>Shared pieces\<close>

text \<open>
  The quantity rule, written the same in both modules:
  \<^verbatim>\<open>count = str(watch.get(...)); if count == ">10": stock = 100
  elif count == "1": stock = 0 else: stock = int(watch.get(...))\<close>.
\<close>

definition stock_value :: "interp \<Rightarrow> pyval \<Rightarrow> py_error + int" where
  "stock_value I q =
     (let count = py_str q in
      if count = ''>10'' then Inr 100
      else if count = ''1'' then Inr 0
      else py_int I q)"

text \<open>\<^verbatim>\<open>lst.remove(x)\<close>: the first occurrence goes; \<^verbatim>\<open>ValueError\<close> when there is none.\<close>

definition list_remove :: "'a list \<Rightarrow> 'a \<Rightarrow> py_error + 'a list" where
  "list_remove lst x = (if x \<in> set lst then Inr (remove1 x lst) else Inl ValueError)"

subsection \<open>\<^verbatim>\<open>seller.py\<close>\<close>

text \<open>
  The dictionaries the functions build, as records. Two dictionaries share the key
  \<^verbatim>\<open>offer_id\<close>; the field of the price dictionary is \<open>p_offer_id\<close>.
\<close>

record ozon_stock =
  offer_id :: string
  stock :: int

record ozon_price =
  auto_action_enabled :: string
  currency_code :: string
  p_offer_id :: string
  old_price :: string
  price :: string

text \<open>
  \<^verbatim>\<open>create_stocks\<close> removes from \<^verbatim>\<open>offer_ids\<close>, the list of its caller, so the model
  returns the list as the call leaves it, next to the result or the exception. The first
  loop, over the rows:
\<close>

fun seller_match_loop ::
  "interp \<Rightarrow> watch list \<Rightarrow> ozon_stock list \<Rightarrow> string list \<Rightarrow> (py_error + ozon_stock list) \<times> string list"
where
  "seller_match_loop I [] stocks offer_ids = (Inr stocks, offer_ids)"
| "seller_match_loop I (w # ws) stocks offer_ids =
     (if py_str (Kod w) \<in> set offer_ids then
        (case stock_value I (Kolichestvo w) of
           Inl e \<Rightarrow> (Inl e, offer_ids)
         | Inr v \<Rightarrow>
             (case list_remove offer_ids (py_str (Kod w)) of
                Inl e \<Rightarrow> (Inl e, offer_ids)
              | Inr offer_ids' \<Rightarrow>
                  seller_match_loop I ws
                    (stocks @ [\<lparr>offer_id = py_str (Kod w), stock = v\<rparr>]) offer_ids'))
      else seller_match_loop I ws stocks offer_ids)"

text \<open>The second loop, over what is left of \<^verbatim>\<open>offer_ids\<close>:\<close>

fun seller_rest_loop :: "string list \<Rightarrow> ozon_stock list \<Rightarrow> ozon_stock list" where
  "seller_rest_loop [] stocks = stocks"
| "seller_rest_loop (x # xs) stocks = seller_rest_loop xs (stocks @ [\<lparr>offer_id = x, stock = 0\<rparr>])"

definition seller_create_stocks ::
  "interp \<Rightarrow> watch list \<Rightarrow> string list \<Rightarrow> (py_error + ozon_stock list) \<times> string list"
where
  "seller_create_stocks I watch_remnants offer_ids =
     (case seller_match_loop I watch_remnants [] offer_ids of
        (Inl e, offer_ids') \<Rightarrow> (Inl e, offer_ids')
      | (Inr stocks, offer_ids') \<Rightarrow> (Inr (seller_rest_loop offer_ids' stocks), offer_ids'))"

text \<open>\<^verbatim>\<open>create_prices\<close> only reads \<^verbatim>\<open>offer_ids\<close>.\<close>

fun seller_prices_loop ::
  "watch list \<Rightarrow> ozon_price list \<Rightarrow> string list \<Rightarrow> py_error + ozon_price list"
where
  "seller_prices_loop [] prices offer_ids = Inr prices"
| "seller_prices_loop (w # ws) prices offer_ids =
     (if py_str (Kod w) \<in> set offer_ids then
        (case price_conversion (Tsena w) of
           Inl e \<Rightarrow> Inl e
         | Inr p \<Rightarrow>
             seller_prices_loop ws
               (prices @ [\<lparr>auto_action_enabled = ''UNKNOWN'', currency_code = ''RUB'',
                            p_offer_id = py_str (Kod w), old_price = ''0'', price = p\<rparr>])
               offer_ids)
      else seller_prices_loop ws prices offer_ids)"

definition seller_create_prices :: "watch list \<Rightarrow> string list \<Rightarrow> py_error + ozon_price list" where
  "seller_create_prices watch_remnants offer_ids = seller_prices_loop watch_remnants [] offer_ids"

text \<open>
  What \<^verbatim>\<open>main\<close> of \<^verbatim>\<open>seller.py\<close> computes between its network calls:
  \<^verbatim>\<open>stocks = create_stocks(watch_remnants, offer_ids)\<close>, the upload of the batches, then
  \<^verbatim>\<open>prices = create_prices(watch_remnants, offer_ids)\<close> with the same list object.
\<close>

definition seller_main_reconcile ::
  "interp \<Rightarrow> watch list \<Rightarrow> string list \<Rightarrow> py_error + (ozon_stock list \<times> ozon_price list)"
where
  "seller_main_reconcile I watch_remnants offer_ids =
     (case seller_create_stocks I watch_remnants offer_ids of
        (Inl e, offer_ids') \<Rightarrow> Inl e
      | (Inr stocks, offer_ids') \<Rightarrow>
          (case seller_create_prices watch_remnants offer_ids' of
             Inl e \<Rightarrow> Inl e
           | Inr prices \<Rightarrow> Inr (stocks, prices)))"

subsection \<open>\<^verbatim>\<open>market.py\<close>\<close>

text \<open>
  The keys \<^verbatim>\<open>type\<close>, \<^verbatim>\<open>id\<close>, \<^verbatim>\<open>price\<close> and \<^verbatim>\<open>value\<close> of the dictionaries are the fields
  \<open>item_type\<close>, \<open>m_id\<close>, \<open>m_price\<close> and \<open>m_value\<close>.
\<close>

record market_item =
  count :: int
  item_type :: string
  updatedAt :: string

record market_stock =
  sku :: string
  warehouseId :: string
  items :: "market_item list"

record market_amount =
  m_value :: int
  currencyId :: string

record market_price =
  m_id :: string
  m_price :: market_amount

text \<open>
  \<^verbatim>\<open>create_stocks\<close> of \<^verbatim>\<open>market.py\<close> reads the clock once, before its loops:
  \<^verbatim>\<open>date = str(datetime.datetime.utcnow().replace(microsecond=0).isoformat() + "Z")\<close>.
  The reading is the parameter \<open>date\<close> of the model.
\<close>

definition market_entry :: "string \<Rightarrow> string \<Rightarrow> string \<Rightarrow> int \<Rightarrow> market_stock" where
  "market_entry date warehouse_id s c =
     \<lparr>sku = s, warehouseId = warehouse_id,
      items = [\<lparr>count = c, item_type = ''FIT'', updatedAt = date\<rparr>]\<rparr>"

fun market_match_loop ::
  "interp \<Rightarrow> string \<Rightarrow> string \<Rightarrow> watch list \<Rightarrow> market_stock list \<Rightarrow> string list
   \<Rightarrow> (py_error + market_stock list) \<times> string list"
where
  "market_match_loop I date warehouse_id [] stocks offer_ids = (Inr stocks, offer_ids)"
| "market_match_loop I date warehouse_id (w # ws) stocks offer_ids =
     (if py_str (Kod w) \<in> set offer_ids then
        (case stock_value I (Kolichestvo w) of
           Inl e \<Rightarrow> (Inl e, offer_ids)
         | Inr v \<Rightarrow>
             (case list_remove offer_ids (py_str (Kod w)) of
                Inl e \<Rightarrow> (Inl e, offer_ids)
              | Inr offer_ids' \<Rightarrow>
                  market_match_loop I date warehouse_id ws
                    (stocks @ [market_entry date warehouse_id (py_str (Kod w)) v])
                    offer_ids'))
      else market_match_loop I date warehouse_id ws stocks offer_ids)"

fun market_rest_loop ::
  "string \<Rightarrow> string \<Rightarrow> string list \<Rightarrow> market_stock list \<Rightarrow> market_stock list"
where
  "market_rest_loop date warehouse_id [] stocks = stocks"
| "market_rest_loop date warehouse_id (x # xs) stocks =
     market_rest_loop date warehouse_id xs (stocks @ [market_entry date warehouse_id x 0])"

definition market_create_stocks ::
  "interp \<Rightarrow> string \<Rightarrow> watch list \<Rightarrow> string list \<Rightarrow> string
   \<Rightarrow> (py_error + market_stock list) \<times> string list"
where
  "market_create_stocks I date watch_remnants offer_ids warehouse_id =
     (case market_match_loop I date warehouse_id watch_remnants [] offer_ids of
        (Inl e, offer_ids') \<Rightarrow> (Inl e, offer_ids')
      | (Inr stocks, offer_ids') \<Rightarrow>
          (Inr (market_rest_loop date warehouse_id offer_ids' stocks), offer_ids'))"

text \<open>\<^verbatim>\<open>"value": int(price_conversion(watch.get(...)))\<close>\<close>

fun market_prices_loop ::
  "interp \<Rightarrow> watch list \<Rightarrow> market_price list \<Rightarrow> string list \<Rightarrow> py_error + market_price list"
where
  "market_prices_loop I [] prices offer_ids = Inr prices"
| "market_prices_loop I (w # ws) prices offer_ids =
     (if py_str (Kod w) \<in> set offer_ids then
        (case price_conversion (Tsena w) of
           Inl e \<Rightarrow> Inl e
         | Inr p \<Rightarrow>
             (case py_int I (PStr p) of
                Inl e \<Rightarrow> Inl e
              | Inr v \<Rightarrow>
                  market_prices_loop I ws
                    (prices @ [\<lparr>m_id = py_str (Kod w),
                                 m_price = \<lparr>m_value = v, currencyId = ''RUR''\<rparr>\<rparr>])
                    offer_ids))
      else market_prices_loop I ws prices offer_ids)"

definition market_create_prices ::
  "interp \<Rightarrow> watch list \<Rightarrow> string list \<Rightarrow> py_error + market_price list" where
  "market_create_prices I watch_remnants offer_ids = market_prices_loop I watch_remnants [] offer_ids"

section \<open>The batches of \<^verbatim>\<open>divide\<close>\<close>

lemma concat_divide_from: "0 < n \<Longrightarrow> concat (divide_from lst n i) = drop i lst"
proof (induction lst n i rule: divide_from.induct)
  case (1 lst n i)
  show ?case
  proof (cases "length lst \<le> i")
    case True
    then show ?thesis by (simp add: divide_from.simps [of lst n i])
  next
    case False
    with 1 have "concat (divide_from lst n (i + n)) = drop (i + n) lst" by simp
    moreover have "take n (drop i lst) @ drop (i + n) lst = drop i lst"
      by (metis add.commute append_take_drop_id drop_drop)
    ultimately show ?thesis using False 1
      by (simp add: divide_from.simps [of lst n i])
  qed
qed

lemma length_divide_from:
  "0 < n \<Longrightarrow> length (divide_from lst n i) = (length lst - i + n - 1) div n"
proof (induction lst n i rule: divide_from.induct)
  case (1 lst n i)
  show ?case
  proof (cases "length lst \<le> i")
    case True
    then show ?thesis using 1 by (simp add: divide_from.simps [of lst n i])
  next
    case False
    with 1 have ih: "length (divide_from lst n (i + n)) = (length lst - (i + n) + n - 1) div n"
      by simp
    have "(length lst - i + n - 1) div n = Suc ((length lst - (i + n) + n - 1) div n)"
    proof (cases "length lst - i \<le> n")
      case True
      with False 1 have "(length lst - i + n - 1) div n = 1"
        by (intro div_nat_eqI) auto
      moreover from True 1 have "(length lst - (i + n) + n - 1) div n = 0" by simp
      ultimately show ?thesis by simp
    next
      case False
      then have "length lst - i + n - 1 = (length lst - (i + n) + n - 1) + n" by simp
      then show ?thesis using 1 by (metis div_add_self2 less_numeral_extra(3) Suc_eq_plus1)
    qed
    then show ?thesis using False 1 ih
      by (simp add: divide_from.simps [of lst n i])
  qed
qed

lemma chunk_length_divide_from:
  "0 < n \<Longrightarrow> k < length (divide_from lst n i) \<Longrightarrow>
   length (divide_from lst n i ! k) = min n (length lst - (i + k * n))"
proof (induction lst n i arbitrary: k rule: divide_from.induct)
  case (1 lst n i)
  show ?case
  proof (cases "length lst \<le> i")
    case True
    then show ?thesis using 1 by (simp add: divide_from.simps [of lst n i])
  next
    case False
    show ?thesis
    proof (cases k)
      case 0
      then show ?thesis using False 1 by (simp add: divide_from.simps [of lst n i])
    next
      case (Suc j)
      with 1(3) False 1(2) have "j < length (divide_from lst n (i + n))"
        by (simp add: divide_from.simps [of lst n i])
      with 1 False have "length (divide_from lst n (i + n) ! j) = min n (length lst - (i + n + j * n))"
        by simp
      then show ?thesis using False 1 Suc
        by (simp add: divide_from.simps [of lst n i] add.assoc)
    qed
  qed
qed

lemma ceiling_div_nat:
  assumes "0 < (n::nat)"
  shows "nat \<lceil>real m / real n\<rceil> = (m + n - 1) div n"
proof -
  define q where "q = (m + n - 1) div n"
  have up: "m + n - 1 < q * n + n"
    unfolding q_def using assms
    by (metis add.commute div_mult_mod_eq mod_less_divisor add_less_cancel_left mult.commute)
  have lo: "q * n \<le> m + n - 1"
    unfolding q_def by simp
  from up assms have a: "m \<le> q * n" by simp
  from lo assms have b: "q * n < m + n" by simp
  have "\<lceil>real m / real n\<rceil> = int q"
  proof (rule ceiling_unique)
    from b have "real (q * n) < real (m + n)" by (simp only: of_nat_less_iff)
    then have "real q * real n - real n < real m" by simp
    then have "(real q - 1) * real n < real m" by (simp add: algebra_simps)
    then show "of_int (int q) - 1 < real m / real n"
      using assms by (simp add: pos_less_divide_eq)
  next
    from a have "real m \<le> real (q * n)" by (simp only: of_nat_le_iff)
    then show "real m / real n \<le> of_int (int q)"
      using assms by (simp add: pos_divide_le_eq)
  qed
  then show ?thesis by (simp add: q_def)
qed

text \<open>
  Claim C5. For a positive chunk size \<open>n\<close>, \<^verbatim>\<open>list(divide(lst, n))\<close> is a list of chunks
  whose concatenation is \<open>lst\<close>; there are \<open>ceil(len(lst) / n)\<close> chunks; every chunk
  but the last has exactly \<open>n\<close> elements; and \<^verbatim>\<open>divide([1, 2, 3, 4, 5], 2)\<close> is
  \<^verbatim>\<open>[[1, 2], [3, 4], [5]]\<close>.
\<close>

theorem divide_chunks:
  "(0 < n \<longrightarrow>
      (\<exists>cs. divide lst n = Inr cs \<and> concat cs = lst
         \<and> length cs = nat \<lceil>real (length lst) / real_of_int n\<rceil>
         \<and> (\<forall>k. Suc k < length cs \<longrightarrow> length (cs ! k) = nat n)))
   \<and> divide [1, 2, 3, 4, 5 :: int] 2 = Inr [[1, 2], [3, 4], [5]]"
proof (intro conjI impI)
  assume n: "0 < n"
  then have pos: "0 < nat n" by simp
  have eq: "real_of_int n = real (nat n)" using n by simp
  have "length (divide_from lst (nat n) 0) = (length lst + nat n - 1) div nat n"
    using pos by (simp add: length_divide_from)
  also have "\<dots> = nat \<lceil>real (length lst) / real (nat n)\<rceil>"
    by (rule ceiling_div_nat [OF pos, symmetric])
  finally have "length (divide_from lst (nat n) 0) = nat \<lceil>real (length lst) / real_of_int n\<rceil>"
    by (simp only: eq)
  moreover have "length (divide_from lst (nat n) 0 ! k) = nat n"
    if "Suc k < length (divide_from lst (nat n) 0)" for k
  proof -
    from that pos have "Suc k < (length lst + nat n - 1) div nat n"
      by (simp add: length_divide_from)
    then have "Suc (Suc k) \<le> (length lst + nat n - 1) div nat n" by simp
    then have "Suc (Suc k) * nat n \<le> length lst + nat n - 1"
      using pos by (simp only: less_eq_div_iff_mult_less_eq)
    then have "nat n \<le> length lst - k * nat n" by simp
    moreover from that have "k < length (divide_from lst (nat n) 0)" by simp
    ultimately show ?thesis using pos by (simp add: chunk_length_divide_from)
  qed
  ultimately show "\<exists>cs. divide lst n = Inr cs \<and> concat cs = lst
         \<and> length cs = nat \<lceil>real (length lst) / real_of_int n\<rceil>
         \<and> (\<forall>k. Suc k < length cs \<longrightarrow> length (cs ! k) = nat n)"
    using n pos by (simp add: divide_def concat_divide_from)
next
  show "divide [1, 2, 3, 4, 5 :: int] 2 = Inr [[1, 2], [3, 4], [5]]"
    by (simp add: divide_def divide_from.simps)
qed

theorem divide_chunks_witness:
  "(0::int) < 2 \<and> (\<exists>cs. divide [10, 20, 30 :: nat] 2 = Inr cs \<and> concat cs = [10, 20, 30]
       \<and> length cs = 2 \<and> (\<forall>k. Suc k < length cs \<longrightarrow> length (cs ! k) = 2))"
  using divide_chunks [of 2 "[10, 20, 30 :: nat]"] by simp

section \<open>The loops of \<^verbatim>\<open>create_stocks\<close>\<close>

text \<open>The list \<open>stocks\<close> only grows at its end, so the loop can be read from the empty list.\<close>

lemma seller_match_loop_acc:
  "seller_match_loop I ws stocks ids =
     (case seller_match_loop I ws [] ids of
        (Inl e, ids') \<Rightarrow> (Inl e, ids')
      | (Inr ms, ids') \<Rightarrow> (Inr (stocks @ ms), ids'))"
proof (induction ws arbitrary: stocks ids)
  case Nil
  show ?case by simp
next
  case (Cons w ws)
  show ?case
  proof (cases "watch_code w \<in> set ids")
    case False
    then show ?thesis using Cons [of stocks ids] by simp
  next
    case True
    show ?thesis
    proof (cases "stock_value I (Kolichestvo w)")
      case (Inl e)
      with True show ?thesis by simp
    next
      case (Inr v)
      let ?u = "\<lparr>offer_id = watch_code w, stock = v\<rparr>"
      let ?ids = "remove1 (watch_code w) ids"
      have "seller_match_loop I ws (stocks @ [?u]) ?ids =
          (case seller_match_loop I ws [] ?ids of
             (Inl e, ids') \<Rightarrow> (Inl e, ids')
           | (Inr ms, ids') \<Rightarrow> (Inr (stocks @ ?u # ms), ids'))"
        using Cons [of "stocks @ [?u]" ?ids] by (simp split: prod.splits sum.splits)
      moreover have "seller_match_loop I ws [?u] ?ids =
          (case seller_match_loop I ws [] ?ids of
             (Inl e, ids') \<Rightarrow> (Inl e, ids')
           | (Inr ms, ids') \<Rightarrow> (Inr (?u # ms), ids'))"
        using Cons [of "[?u]" ?ids] by (simp split: prod.splits sum.splits)
      ultimately show ?thesis using True Inr
        by (simp add: list_remove_def split: prod.splits sum.splits)
    qed
  qed
qed

lemma seller_match_loop_step:
  "seller_match_loop I (w # ws) [] ids =
     (if watch_code w \<in> set ids then
        (case stock_value I (Kolichestvo w) of
           Inl e \<Rightarrow> (Inl e, ids)
         | Inr v \<Rightarrow>
             (case seller_match_loop I ws [] (remove1 (watch_code w) ids) of
                (Inl e, ids') \<Rightarrow> (Inl e, ids')
              | (Inr ms, ids') \<Rightarrow> (Inr (\<lparr>offer_id = watch_code w, stock = v\<rparr> # ms), ids')))
      else seller_match_loop I ws [] ids)"
  by (simp add: list_remove_def seller_match_loop_acc [of I ws "[_]"] split: sum.splits prod.splits)

lemma seller_rest_loop_eq:
  "seller_rest_loop ids stocks = stocks @ map (\<lambda>x. \<lparr>offer_id = x, stock = 0\<rparr>) ids"
  by (induction ids arbitrary: stocks) simp_all

lemma market_match_loop_sim:
  "mstocks = map (\<lambda>u. market_entry d wh (offer_id u) (stock u)) stocks \<Longrightarrow>
   market_match_loop I d wh ws mstocks ids =
     apfst (map_sum (\<lambda>e. e) (map (\<lambda>u. market_entry d wh (offer_id u) (stock u))))
       (seller_match_loop I ws stocks ids)"
proof (induction ws arbitrary: stocks mstocks ids)
  case Nil
  then show ?case by simp
next
  case (Cons w ws)
  have step: "market_match_loop I d wh ws (mstocks @ [market_entry d wh (watch_code w) v]) ids' =
      apfst (map_sum (\<lambda>e. e) (map (\<lambda>u. market_entry d wh (offer_id u) (stock u))))
        (seller_match_loop I ws (stocks @ [\<lparr>offer_id = watch_code w, stock = v\<rparr>]) ids')"
    for v ids'
    by (rule Cons.IH) (simp add: Cons.prems)
  show ?case
    by (simp add: step Cons.IH [OF Cons.prems] split: sum.splits)
qed

lemma market_rest_loop_sim:
  "mstocks = map (\<lambda>u. market_entry d wh (offer_id u) (stock u)) stocks \<Longrightarrow>
   market_rest_loop d wh ids mstocks =
     map (\<lambda>u. market_entry d wh (offer_id u) (stock u)) (seller_rest_loop ids stocks)"
proof (induction ids arbitrary: stocks mstocks)
  case Nil
  then show ?case by simp
next
  case (Cons x xs)
  have "market_rest_loop d wh xs (mstocks @ [market_entry d wh x 0]) =
      map (\<lambda>u. market_entry d wh (offer_id u) (stock u))
        (seller_rest_loop xs (stocks @ [\<lparr>offer_id = x, stock = 0\<rparr>]))"
    by (rule Cons.IH) (simp add: Cons.prems)
  then show ?case by simp
qed

lemma market_create_stocks_sim:
  "market_create_stocks I d ws ids wh =
     apfst (map_sum (\<lambda>e. e) (map (\<lambda>u. market_entry d wh (offer_id u) (stock u))))
       (seller_create_stocks I ws ids)"
proof (cases "seller_match_loop I ws [] ids")
  case (Pair r ids')
  then have m: "market_match_loop I d wh ws [] ids =
      (map_sum (\<lambda>e. e) (map (\<lambda>u. market_entry d wh (offer_id u) (stock u))) r, ids')"
    using market_match_loop_sim [of "[]" d wh "[]" I ws ids] by simp
  show ?thesis
  proof (cases r)
    case (Inl e)
    with Pair m show ?thesis
      by (simp add: market_create_stocks_def seller_create_stocks_def)
  next
    case (Inr ms)
    with Pair m show ?thesis
      by (simp add: market_create_stocks_def seller_create_stocks_def
          market_rest_loop_sim [of _ d wh ms])
  qed
qed

declare seller_match_loop.simps(2) [simp del]

subsection \<open>The working list\<close>

lemma set_fold_remove1_subset: "set (fold remove1 cs ids) \<subseteq> set ids"
proof (induction cs arbitrary: ids)
  case Nil
  show ?case by simp
next
  case (Cons c cs)
  have "set (fold remove1 cs (remove1 c ids)) \<subseteq> set (remove1 c ids)" by (rule Cons.IH)
  also have "\<dots> \<subseteq> set ids" by (rule set_remove1_subset)
  finally show ?case by simp
qed

lemma in_set_fold_remove1: "x \<in> set ids \<Longrightarrow> x \<notin> set cs \<Longrightarrow> x \<in> set (fold remove1 cs ids)"
  by (induction cs arbitrary: ids) auto

lemma subseq_remove1: "subseq (remove1 c ids) ids"
  by (induction ids) auto

lemma subseq_fold_remove1: "subseq (fold remove1 cs ids) ids"
proof (induction cs arbitrary: ids)
  case Nil
  show ?case by simp
next
  case (Cons c cs)
  have "subseq (fold remove1 cs (remove1 c ids)) (remove1 c ids)" by (rule Cons.IH)
  then show ?case using subseq_remove1 [of c ids] by (simp add: subseq_order.order_trans)
qed

lemma distinct_fold_remove1:
  "distinct ids \<Longrightarrow> fold remove1 cs ids = filter (\<lambda>x. x \<notin> set cs) ids"
proof (induction cs arbitrary: ids)
  case Nil
  show ?case by simp
next
  case (Cons c cs)
  then have "fold remove1 cs (remove1 c ids) = filter (\<lambda>x. x \<notin> set cs) (remove1 c ids)"
    by simp
  also have "\<dots> = filter (\<lambda>x. x \<notin> set cs) (filter (\<lambda>x. c \<noteq> x) ids)"
    using Cons.prems by (simp add: distinct_remove1_removeAll removeAll_filter_not_eq)
  also have "\<dots> = filter (\<lambda>x. x \<notin> set (c # cs)) ids"
    by (induction ids) auto
  finally show ?case by simp
qed

text \<open>The list that the first loop leaves.\<close>

lemma seller_match_loop_rest:
  "seller_match_loop I ws [] ids = (Inr ms, ids') \<Longrightarrow> ids' = fold remove1 (map watch_code ws) ids"
proof (induction ws arbitrary: ids ms)
  case Nil
  then show ?case by simp
next
  case (Cons w ws)
  show ?case
  proof (cases "watch_code w \<in> set ids")
    case False
    with Cons show ?thesis by (simp add: seller_match_loop_step remove1_idem)
  next
    case True
    with Cons.prems obtain ms' where "seller_match_loop I ws [] (remove1 (watch_code w) ids) = (Inr ms', ids')"
      by (auto simp: seller_match_loop_step split: sum.splits prod.splits)
    then show ?thesis using Cons.IH by simp
  qed
qed

text \<open>The entries of the first loop: one for each row of a sublist of the rows.\<close>

lemma seller_match_loop_shape:
  "seller_match_loop I ws [] ids = (Inr ms, ids') \<Longrightarrow>
   \<exists>sub. subseq sub ws
     \<and> list_all2 (\<lambda>w u. \<exists>v. stock_value I (Kolichestvo w) = Inr v
                             \<and> u = \<lparr>offer_id = watch_code w, stock = v\<rparr>) sub ms
     \<and> watch_code ` set sub = watch_code ` set ws \<inter> set ids"
proof (induction ws arbitrary: ids ms)
  case Nil
  then show ?case by simp
next
  case (Cons w ws)
  show ?case
  proof (cases "watch_code w \<in> set ids")
    case False
    with Cons.prems have "seller_match_loop I ws [] ids = (Inr ms, ids')"
      by (simp add: seller_match_loop_step)
    from Cons.IH [OF this] obtain sub where sub: "subseq sub ws"
      "list_all2 (\<lambda>w u. \<exists>v. stock_value I (Kolichestvo w) = Inr v
                             \<and> u = \<lparr>offer_id = watch_code w, stock = v\<rparr>) sub ms"
      "watch_code ` set sub = watch_code ` set ws \<inter> set ids"
      by blast
    from sub(1) have "subseq sub (w # ws)" by (rule list_emb_Cons)
    moreover from sub(3) False have "watch_code ` set sub = watch_code ` set (w # ws) \<inter> set ids"
      by auto
    ultimately show ?thesis using sub(2) by blast
  next
    case True
    let ?ids = "remove1 (watch_code w) ids"
    from True Cons.prems obtain v ms' where v: "stock_value I (Kolichestvo w) = Inr v"
      and ms: "ms = \<lparr>offer_id = watch_code w, stock = v\<rparr> # ms'"
      and run: "seller_match_loop I ws [] ?ids = (Inr ms', ids')"
      by (auto simp: seller_match_loop_step split: sum.splits prod.splits)
    from Cons.IH [OF run] obtain sub where sub: "subseq sub ws"
      "list_all2 (\<lambda>w u. \<exists>v. stock_value I (Kolichestvo w) = Inr v
                             \<and> u = \<lparr>offer_id = watch_code w, stock = v\<rparr>) sub ms'"
      "watch_code ` set sub = watch_code ` set ws \<inter> set ?ids"
      by blast
    have "subseq (w # sub) (w # ws)" using sub(1) by simp
    moreover have "list_all2 (\<lambda>w u. \<exists>v. stock_value I (Kolichestvo w) = Inr v
                             \<and> u = \<lparr>offer_id = watch_code w, stock = v\<rparr>) (w # sub) ms"
      using sub(2) v ms by simp
    moreover have "watch_code ` set (w # sub) = watch_code ` set (w # ws) \<inter> set ids"
    proof -
      have "set ?ids \<subseteq> set ids" by (rule set_remove1_subset)
      moreover have "x \<in> set ?ids" if "x \<in> set ids" "x \<noteq> watch_code w" for x
        using that by simp
      ultimately show ?thesis using sub(3) True by auto
    qed
    ultimately show ?thesis by blast
  qed
qed

text \<open>A row whose code is in the working list when the loop reaches it gets its entry.\<close>

lemma seller_match_loop_row:
  "seller_match_loop I (pre @ w # post) [] ids = (Inr ms, ids') \<Longrightarrow>
   watch_code w \<in> set (fold remove1 (map watch_code pre) ids) \<Longrightarrow>
   \<exists>v. stock_value I (Kolichestvo w) = Inr v \<and> \<lparr>offer_id = watch_code w, stock = v\<rparr> \<in> set ms"
proof (induction pre arbitrary: ids ms)
  case Nil
  then show ?case
    by (auto simp: seller_match_loop_step split: sum.splits prod.splits)
next
  case (Cons p pre)
  show ?case
  proof (cases "watch_code p \<in> set ids")
    case False
    with Cons.prems have "seller_match_loop I (pre @ w # post) [] ids = (Inr ms, ids')"
      and "watch_code w \<in> set (fold remove1 (map watch_code pre) ids)"
      by (simp_all add: seller_match_loop_step remove1_idem)
    then show ?thesis by (rule Cons.IH)
  next
    case True
    with Cons.prems(1) obtain u ms' where ms: "ms = u # ms'"
      and run: "seller_match_loop I (pre @ w # post) [] (remove1 (watch_code p) ids) = (Inr ms', ids')"
      by (auto simp: seller_match_loop_step split: sum.splits prod.splits)
    from Cons.prems(2) have "watch_code w \<in> set (fold remove1 (map watch_code pre) (remove1 (watch_code p) ids))"
      by simp
    from Cons.IH [OF run this] show ?thesis using ms by auto
  qed
qed

text \<open>With a catalog free of duplicates, the offer ids of the entries are distinct.\<close>

lemma seller_match_loop_distinct:
  "seller_match_loop I ws [] ids = (Inr ms, ids') \<Longrightarrow> distinct ids \<Longrightarrow>
   distinct (map offer_id ms) \<and> set (map offer_id ms) \<inter> set ids' = {}
     \<and> set (map offer_id ms) \<subseteq> set ids"
proof (induction ws arbitrary: ids ms)
  case Nil
  then show ?case by simp
next
  case (Cons w ws)
  show ?case
  proof (cases "watch_code w \<in> set ids")
    case False
    with Cons.prems have "seller_match_loop I ws [] ids = (Inr ms, ids')"
      by (simp add: seller_match_loop_step)
    then show ?thesis using Cons.prems(2) by (rule Cons.IH)
  next
    case True
    let ?c = "watch_code w"
    from True Cons.prems(1) obtain v ms' where ms: "ms = \<lparr>offer_id = ?c, stock = v\<rparr> # ms'"
      and run: "seller_match_loop I ws [] (remove1 ?c ids) = (Inr ms', ids')"
      by (auto simp: seller_match_loop_step split: sum.splits prod.splits)
    from Cons.prems(2) have d: "distinct (remove1 ?c ids)" by simp
    from Cons.IH [OF run d] have ih: "distinct (map offer_id ms')"
      "set (map offer_id ms') \<inter> set ids' = {}" "set (map offer_id ms') \<subseteq> set (remove1 ?c ids)"
      by simp_all
    from Cons.prems(2) have notin: "?c \<notin> set (remove1 ?c ids)" by simp
    have "ids' = fold remove1 (map watch_code ws) (remove1 ?c ids)"
      using run by (rule seller_match_loop_rest)
    then have "set ids' \<subseteq> set (remove1 ?c ids)" by (simp add: set_fold_remove1_subset)
    with notin ih ms True show ?thesis
      using set_remove1_subset [of ?c ids] by auto
  qed
qed

subsection \<open>Runs of \<^verbatim>\<open>create_stocks\<close> that return\<close>

lemma market_create_stocks_Inr:
  "market_create_stocks I d ws ids wh = (Inr mout, ids') \<longleftrightarrow>
     (\<exists>out. seller_create_stocks I ws ids = (Inr out, ids')
        \<and> mout = map (\<lambda>u. market_entry d wh (offer_id u) (stock u)) out)"
proof (cases "seller_create_stocks I ws ids")
  case (Pair r i)
  then show ?thesis
    by (cases r) (auto simp: market_create_stocks_sim)
qed


lemma seller_create_stocks_cases:
  obtains (Fail) e ids' where "seller_create_stocks I ws ids = (Inl e, ids')"
  | (Return) ms ids' where "seller_match_loop I ws [] ids = (Inr ms, ids')"
      "seller_create_stocks I ws ids = (Inr (ms @ map (\<lambda>x. \<lparr>offer_id = x, stock = 0\<rparr>) ids'), ids')"
proof (cases "seller_match_loop I ws [] ids")
  case (Pair r i)
  show ?thesis
  proof (cases r)
    case (Inl e)
    with Pair have "seller_create_stocks I ws ids = (Inl e, i)"
      by (simp add: seller_create_stocks_def)
    then show ?thesis by (rule Fail)
  next
    case (Inr ms)
    with Pair show ?thesis
      by (intro Return [of ms i]) (simp_all add: seller_create_stocks_def seller_rest_loop_eq)
  qed
qed

lemma seller_create_stocks_zero:
  assumes "fst (seller_create_stocks I ws ids) = Inr out" "x \<in> set ids" "x \<notin> watch_code ` set ws"
  shows "\<lparr>offer_id = x, stock = 0\<rparr> \<in> set out"
proof (cases I ws ids rule: seller_create_stocks_cases)
  case (Fail e ids')
  with assms(1) show ?thesis by simp
next
  case (Return ms ids')
  from Return(1) have "ids' = fold remove1 (map watch_code ws) ids"
    by (rule seller_match_loop_rest)
  with assms(2,3) have "x \<in> set ids'" by (simp add: in_set_fold_remove1)
  with Return(2) assms(1) show ?thesis by auto
qed

lemma seller_create_stocks_row:
  assumes "fst (seller_create_stocks I (pre @ w # post) ids) = Inr out"
    and "watch_code w \<in> set (fold remove1 (map watch_code pre) ids)"
  shows "\<exists>v. stock_value I (Kolichestvo w) = Inr v \<and> \<lparr>offer_id = watch_code w, stock = v\<rparr> \<in> set out"
proof (cases I "pre @ w # post" ids rule: seller_create_stocks_cases)
  case (Fail e ids')
  with assms(1) show ?thesis by simp
next
  case (Return ms ids')
  from seller_match_loop_row [OF Return(1) assms(2)] Return(2) assms(1)
  show ?thesis by auto
qed

lemma stock_value_cases:
  "stock_value I q = Inr v \<Longrightarrow>
     (py_str q = ''>10'' \<longrightarrow> v = 100) \<and> (py_str q = ''1'' \<longrightarrow> v = 0)
     \<and> (py_str q \<noteq> ''>10'' \<and> py_str q \<noteq> ''1'' \<longrightarrow> py_int I q = Inr v)"
  by (auto simp: stock_value_def Let_def split: if_splits)

subsection \<open>\<^verbatim>\<open>int\<close> on a text of ASCII digits\<close>

lemma to_ascii_from_ascii:
  "list_all (\<lambda>c. (of_char c :: nat) < 127) s \<Longrightarrow> to_ascii_from 0 I s = s"
  by (induction s) simp_all

lemma is_digit_ascii: "is_digit c \<Longrightarrow> (of_char c :: nat) < 127"
  by (simp add: is_digit_def)

lemma to_ascii_digits: "list_all is_digit s \<Longrightarrow> to_ascii I s = s"
  unfolding to_ascii_def
  by (rule to_ascii_from_ascii) (auto simp: list_all_iff dest: is_digit_ascii)

lemma scan_digits_digits:
  "list_all is_digit ds \<Longrightarrow>
   scan_digits ds acc k = Some (foldl (\<lambda>a c. a * 10 + digit_val c) acc ds, k + length ds, [])"
  by (induction ds arbitrary: acc k) simp_all

lemma py_int_digits:
  assumes "s \<noteq> []" "list_all is_digit s"
    and "length s \<le> 640 \<or> int_max_str_digits I = 0 \<or> length s \<le> int_max_str_digits I"
  shows "py_int I (PStr s) = Inr (int (foldl (\<lambda>a c. a * 10 + digit_val c) 0 s))"
proof -
  from assms(1) obtain d ds where s: "s = d # ds" by (cases s) auto
  with assms(2) have d: "is_digit d" and ds: "list_all is_digit ds" by simp_all
  from d have nd: "\<not> is_space d" "d \<noteq> CHR ''+''" "d \<noteq> CHR ''-''"
    by (auto simp: is_digit_def is_space_def)
  have scan: "scan_digits ds (digit_val d) (Suc 0)
      = Some (foldl (\<lambda>a c. a * 10 + digit_val c) (digit_val d) ds, Suc (length ds), [])"
    using scan_digits_digits [OF ds, of "digit_val d" "Suc 0"] by simp
  have "int_of_digits I 1 s = Inr (int (foldl (\<lambda>a c. a * 10 + digit_val c) 0 s))"
    using d assms(3) by (auto simp: int_of_digits_def s scan)
  moreover have "to_ascii I (d # ds) = d # ds"
    using to_ascii_digits [OF assms(2)] by (simp only: s)
  ultimately show ?thesis
    using nd by (simp add: int_of_str_def s)
qed

lemma py_int_too_long:
  assumes "list_all is_digit s" "640 < length s" "0 < int_max_str_digits I"
    "int_max_str_digits I < length s"
  shows "py_int I (PStr s) = Inl ValueError"
proof -
  from assms(2) obtain d ds where s: "s = d # ds" by (cases s) auto
  with assms(1) have d: "is_digit d" and ds: "list_all is_digit ds" by simp_all
  from d have nd: "\<not> is_space d" "d \<noteq> CHR ''+''" "d \<noteq> CHR ''-''"
    by (auto simp: is_digit_def is_space_def)
  have scan: "scan_digits ds (digit_val d) (Suc 0)
      = Some (foldl (\<lambda>a c. a * 10 + digit_val c) (digit_val d) ds, Suc (length ds), [])"
    using scan_digits_digits [OF ds, of "digit_val d" "Suc 0"] by simp
  have "int_of_digits I 1 s = Inl ValueError"
    using d assms(2-4) by (auto simp: int_of_digits_def s scan)
  moreover have "to_ascii I (d # ds) = d # ds"
    using to_ascii_digits [OF assms(1)] by (simp only: s)
  ultimately show ?thesis
    using nd by (simp add: int_of_str_def s)
qed

text \<open>The digits that \<^verbatim>\<open>str\<close> writes for a number are read back as the number.\<close>

lemma digit_char_digit: "d < 10 \<Longrightarrow> is_digit (digit_char d) \<and> digit_val (digit_char d) = d"
  by (simp add: is_digit_def digit_val_def digit_char_def)

lemma str_nat_digits:
  "list_all is_digit (str_nat n) \<and> str_nat n \<noteq> []
     \<and> foldl (\<lambda>a c. a * 10 + digit_val c) 0 (str_nat n) = n"
proof (induction n rule: str_nat.induct)
  case (1 n)
  show ?case
  proof (cases "n < 10")
    case True
    then show ?thesis by (simp add: str_nat.simps [of n] digit_char_digit)
  next
    case False
    with 1 have ih: "list_all is_digit (str_nat (n div 10))"
      "foldl (\<lambda>a c. a * 10 + digit_val c) 0 (str_nat (n div 10)) = n div 10"
      by simp_all
    have "n mod 10 < 10" by simp
    then have "is_digit (digit_char (n mod 10))" "digit_val (digit_char (n mod 10)) = n mod 10"
      by (simp_all add: digit_char_digit)
    with ih False show ?thesis by (simp add: str_nat.simps [of n])
  qed
qed

lemma py_int_str_nat:
  assumes "length (str_nat n) \<le> 640 \<or> int_max_str_digits I = 0
      \<or> length (str_nat n) \<le> int_max_str_digits I"
  shows "py_int I (PStr (str_nat n)) = Inr (int n)"
  using py_int_digits [of "str_nat n" I] assms str_nat_digits [of n] by simp

text \<open>
  Beyond ASCII the tables of the interpreter decide: with U+0667 as the digit 7 and U+00A0
  as white space, \<^verbatim>\<open>int\<close> reads both, and the row gets the stock 7; a character that is
  in neither table (here U+0431) makes \<^verbatim>\<open>int\<close> raise.
\<close>

lemma py_int_beyond_ascii:
  "py_int small_interp (PStr [CHR 0xD9, CHR 0xA7]) = Inr 7
   \<and> py_int small_interp (PStr ([CHR 0xC2, CHR 0xA0] @ ''1'' @ [CHR 0xD9, CHR 0xA7])) = Inr 17
   \<and> py_int small_interp (PStr [CHR 0xD0, CHR 0xB1]) = Inl ValueError
   \<and> fst (seller_create_stocks small_interp
          [\<lparr>Kod = PStr ''A'', Kolichestvo = PStr [CHR 0xD9, CHR 0xA7], Tsena = PNone\<rparr>] [''A''])
     = Inr [\<lparr>offer_id = ''A'', stock = 7\<rparr>]"
  by code_simp

section \<open>Stock reconciliation\<close>

lemma complete_via_market_entry:
  "(fst (seller_create_stocks I ws ids) = Inr out \<and> x \<in> set ids \<and> x \<notin> watch_code ` set ws
      \<longrightarrow> \<lparr>offer_id = x, stock = 0\<rparr> \<in> set out)
   \<and> (fst (market_create_stocks I d ws ids wh) = Inr mout \<and> x \<in> set ids \<and> x \<notin> watch_code ` set ws
      \<longrightarrow> market_entry d wh x 0 \<in> set mout)
   \<and> (stock_value I qa = Inr va \<and> stock_value I qb = Inr vb \<longrightarrow>
        fst (seller_create_stocks I
               [\<lparr>Kod = PStr ''A'', Kolichestvo = qa, Tsena = pa\<rparr>,
                \<lparr>Kod = PStr ''B'', Kolichestvo = qb, Tsena = pb\<rparr>] [''A'', ''B'', ''C''])
          = Inr [\<lparr>offer_id = ''A'', stock = va\<rparr>, \<lparr>offer_id = ''B'', stock = vb\<rparr>,
                 \<lparr>offer_id = ''C'', stock = 0\<rparr>]
        \<and> fst (market_create_stocks I d
               [\<lparr>Kod = PStr ''A'', Kolichestvo = qa, Tsena = pa\<rparr>,
                \<lparr>Kod = PStr ''B'', Kolichestvo = qb, Tsena = pb\<rparr>] [''A'', ''B'', ''C''] wh)
          = Inr [market_entry d wh ''A'' va, market_entry d wh ''B'' vb,
                 market_entry d wh ''C'' 0])"
proof (intro conjI impI)
  assume "fst (seller_create_stocks I ws ids) = Inr out \<and> x \<in> set ids \<and> x \<notin> watch_code ` set ws"
  then show "\<lparr>offer_id = x, stock = 0\<rparr> \<in> set out"
    by (blast intro: seller_create_stocks_zero)
next
  assume a: "fst (market_create_stocks I d ws ids wh) = Inr mout \<and> x \<in> set ids
      \<and> x \<notin> watch_code ` set ws"
  then obtain ids' where "market_create_stocks I d ws ids wh = (Inr mout, ids')"
    by (cases "market_create_stocks I d ws ids wh") simp
  then obtain out where out: "seller_create_stocks I ws ids = (Inr out, ids')"
    and mout: "mout = map (\<lambda>u. market_entry d wh (offer_id u) (stock u)) out"
    by (auto simp: market_create_stocks_Inr)
  from out a have "\<lparr>offer_id = x, stock = 0\<rparr> \<in> set out"
    by (intro seller_create_stocks_zero [of I ws ids]) simp_all
  then have "market_entry d wh (offer_id \<lparr>offer_id = x, stock = 0\<rparr>)
      (stock \<lparr>offer_id = x, stock = 0\<rparr>) \<in> set mout"
    unfolding mout set_map by (rule imageI)
  then show "market_entry d wh x 0 \<in> set mout" by simp
next
  assume q: "stock_value I qa = Inr va \<and> stock_value I qb = Inr vb"
  then show s: "fst (seller_create_stocks I
               [\<lparr>Kod = PStr ''A'', Kolichestvo = qa, Tsena = pa\<rparr>,
                \<lparr>Kod = PStr ''B'', Kolichestvo = qb, Tsena = pb\<rparr>] [''A'', ''B'', ''C''])
          = Inr [\<lparr>offer_id = ''A'', stock = va\<rparr>, \<lparr>offer_id = ''B'', stock = vb\<rparr>,
                 \<lparr>offer_id = ''C'', stock = 0\<rparr>]"
    by (simp add: seller_create_stocks_def seller_match_loop.simps(2) list_remove_def)
  show "fst (market_create_stocks I d
               [\<lparr>Kod = PStr ''A'', Kolichestvo = qa, Tsena = pa\<rparr>,
                \<lparr>Kod = PStr ''B'', Kolichestvo = qb, Tsena = pb\<rparr>] [''A'', ''B'', ''C''] wh)
          = Inr [market_entry d wh ''A'' va, market_entry d wh ''B'' vb,
                 market_entry d wh ''C'' 0]"
    using q by (simp add: market_create_stocks_def list_remove_def)
qed

text \<open>
  Claim C1. When \<^verbatim>\<open>create_stocks\<close> returns, every offer id of the catalog list that is
  the code (as a string) of no row of the stock file is in the result with stock 0, in
  \<^verbatim>\<open>seller.py\<close> and in \<^verbatim>\<open>market.py\<close>. For rows with the codes A and B and the catalog
  A, B, C the result has exactly three entries: A and B with the values of their
  quantities, then C with 0.
\<close>

theorem stocks_complete:
  "(fst (seller_create_stocks I ws ids) = Inr out \<and> x \<in> set ids \<and> x \<notin> watch_code ` set ws
      \<longrightarrow> \<lparr>offer_id = x, stock = 0\<rparr> \<in> set out)
   \<and> (fst (market_create_stocks I d ws ids wh) = Inr mout \<and> x \<in> set ids \<and> x \<notin> watch_code ` set ws
      \<longrightarrow> \<lparr>sku = x, warehouseId = wh,
            items = [\<lparr>count = 0, item_type = ''FIT'', updatedAt = d\<rparr>]\<rparr> \<in> set mout)
   \<and> (stock_value I qa = Inr va \<and> stock_value I qb = Inr vb \<longrightarrow>
        fst (seller_create_stocks I
               [\<lparr>Kod = PStr ''A'', Kolichestvo = qa, Tsena = pa\<rparr>,
                \<lparr>Kod = PStr ''B'', Kolichestvo = qb, Tsena = pb\<rparr>] [''A'', ''B'', ''C''])
          = Inr [\<lparr>offer_id = ''A'', stock = va\<rparr>, \<lparr>offer_id = ''B'', stock = vb\<rparr>,
                 \<lparr>offer_id = ''C'', stock = 0\<rparr>]
        \<and> fst (market_create_stocks I d
               [\<lparr>Kod = PStr ''A'', Kolichestvo = qa, Tsena = pa\<rparr>,
                \<lparr>Kod = PStr ''B'', Kolichestvo = qb, Tsena = pb\<rparr>] [''A'', ''B'', ''C''] wh)
          = Inr [\<lparr>sku = ''A'', warehouseId = wh,
                   items = [\<lparr>count = va, item_type = ''FIT'', updatedAt = d\<rparr>]\<rparr>,
                 \<lparr>sku = ''B'', warehouseId = wh,
                   items = [\<lparr>count = vb, item_type = ''FIT'', updatedAt = d\<rparr>]\<rparr>,
                 \<lparr>sku = ''C'', warehouseId = wh,
                   items = [\<lparr>count = 0, item_type = ''FIT'', updatedAt = d\<rparr>]\<rparr>])"
  by (rule complete_via_market_entry [unfolded market_entry_def])

theorem stocks_complete_witness:
  "fst (seller_create_stocks small_interp
          [\<lparr>Kod = PStr ''A'', Kolichestvo = PStr ''7'', Tsena = PNone\<rparr>,
           \<lparr>Kod = PInt 12, Kolichestvo = PStr ''>10'', Tsena = PNone\<rparr>] [''C'', ''A'', ''12'', ''D''])
     = Inr [\<lparr>offer_id = ''A'', stock = 7\<rparr>, \<lparr>offer_id = ''12'', stock = 100\<rparr>,
            \<lparr>offer_id = ''C'', stock = 0\<rparr>, \<lparr>offer_id = ''D'', stock = 0\<rparr>]
   \<and> fst (market_create_stocks small_interp ''t''
          [\<lparr>Kod = PStr ''A'', Kolichestvo = PStr ''7'', Tsena = PNone\<rparr>,
           \<lparr>Kod = PInt 12, Kolichestvo = PStr ''>10'', Tsena = PNone\<rparr>] [''C'', ''A'', ''12'', ''D'']
          ''wh'')
     = Inr [\<lparr>sku = ''A'', warehouseId = ''wh'',
              items = [\<lparr>count = 7, item_type = ''FIT'', updatedAt = ''t''\<rparr>]\<rparr>,
            \<lparr>sku = ''12'', warehouseId = ''wh'',
              items = [\<lparr>count = 100, item_type = ''FIT'', updatedAt = ''t''\<rparr>]\<rparr>,
            \<lparr>sku = ''C'', warehouseId = ''wh'',
              items = [\<lparr>count = 0, item_type = ''FIT'', updatedAt = ''t''\<rparr>]\<rparr>,
            \<lparr>sku = ''D'', warehouseId = ''wh'',
              items = [\<lparr>count = 0, item_type = ''FIT'', updatedAt = ''t''\<rparr>]\<rparr>]
   \<and> ''D'' \<in> set [''C'', ''A'', ''12'', ''D'']
   \<and> ''D'' \<notin> watch_code ` set [\<lparr>Kod = PStr ''A'', Kolichestvo = PStr ''7'', Tsena = PNone\<rparr>,
           \<lparr>Kod = PInt 12, Kolichestvo = PStr ''>10'', Tsena = PNone\<rparr>]
   \<and> \<lparr>offer_id = ''D'', stock = 0\<rparr> \<in> set [\<lparr>offer_id = ''A'', stock = 7\<rparr>,
         \<lparr>offer_id = ''12'', stock = 100\<rparr>, \<lparr>offer_id = ''C'', stock = 0\<rparr>,
         \<lparr>offer_id = ''D'', stock = 0\<rparr>]
   \<and> stock_value small_interp (PStr ''7'') = Inr 7
   \<and> stock_value small_interp (PStr ''>10'') = Inr 100
   \<and> fst (seller_create_stocks small_interp
          [\<lparr>Kod = PStr ''A'', Kolichestvo = PStr ''7'', Tsena = PNone\<rparr>,
           \<lparr>Kod = PStr ''B'', Kolichestvo = PStr ''>10'', Tsena = PNone\<rparr>] [''A'', ''B'', ''C''])
     = Inr [\<lparr>offer_id = ''A'', stock = 7\<rparr>, \<lparr>offer_id = ''B'', stock = 100\<rparr>,
            \<lparr>offer_id = ''C'', stock = 0\<rparr>]
   \<and> fst (market_create_stocks small_interp ''t''
          [\<lparr>Kod = PStr ''A'', Kolichestvo = PStr ''7'', Tsena = PNone\<rparr>,
           \<lparr>Kod = PStr ''B'', Kolichestvo = PStr ''>10'', Tsena = PNone\<rparr>] [''A'', ''B'', ''C''] ''wh'')
     = Inr [\<lparr>sku = ''A'', warehouseId = ''wh'',
              items = [\<lparr>count = 7, item_type = ''FIT'', updatedAt = ''t''\<rparr>]\<rparr>,
            \<lparr>sku = ''B'', warehouseId = ''wh'',
              items = [\<lparr>count = 100, item_type = ''FIT'', updatedAt = ''t''\<rparr>]\<rparr>,
            \<lparr>sku = ''C'', warehouseId = ''wh'',
              items = [\<lparr>count = 0, item_type = ''FIT'', updatedAt = ''t''\<rparr>]\<rparr>]"
proof -
  let ?ws = "[\<lparr>Kod = PStr ''A'', Kolichestvo = PStr ''7'', Tsena = PNone\<rparr>,
           \<lparr>Kod = PInt 12, Kolichestvo = PStr ''>10'', Tsena = PNone\<rparr>]"
  let ?ids = "[''C'', ''A'', ''12'', ''D'']"
  let ?out = "[\<lparr>offer_id = ''A'', stock = 7\<rparr>, \<lparr>offer_id = ''12'', stock = 100\<rparr>,
            \<lparr>offer_id = ''C'', stock = 0\<rparr>, \<lparr>offer_id = ''D'', stock = 0\<rparr>]"
  let ?mout = "[\<lparr>sku = ''A'', warehouseId = ''wh'',
              items = [\<lparr>count = 7, item_type = ''FIT'', updatedAt = ''t''\<rparr>]\<rparr>,
            \<lparr>sku = ''12'', warehouseId = ''wh'',
              items = [\<lparr>count = 100, item_type = ''FIT'', updatedAt = ''t''\<rparr>]\<rparr>,
            \<lparr>sku = ''C'', warehouseId = ''wh'',
              items = [\<lparr>count = 0, item_type = ''FIT'', updatedAt = ''t''\<rparr>]\<rparr>,
            \<lparr>sku = ''D'', warehouseId = ''wh'',
              items = [\<lparr>count = 0, item_type = ''FIT'', updatedAt = ''t''\<rparr>]\<rparr>]"
  have run: "fst (seller_create_stocks small_interp ?ws ?ids) = Inr ?out"
    by code_simp
  have mrun: "fst (market_create_stocks small_interp ''t'' ?ws ?ids ''wh'') = Inr ?mout"
    by code_simp
  have code: "''D'' \<notin> watch_code ` set ?ws"
    by code_simp
  have qa: "stock_value small_interp (PStr ''7'') = Inr 7"
    by code_simp
  have qb: "stock_value small_interp (PStr ''>10'') = Inr 100"
    by code_simp
  from stocks_complete [where I = small_interp and ws = ?ws and ids = ?ids and out = ?out
      and x = "''D''" and d = "''t''" and wh = "''wh''" and mout = ?mout
      and qa = "PStr ''7''" and va = 7 and qb = "PStr ''>10''" and vb = 100
      and pa = PNone and pb = PNone] run mrun code qa qb
  show ?thesis by simp
qed

text \<open>
  Claim C3. A row is matched when its code is in the working list as the loop reaches it,
  that is in \<open>fold remove1 (map watch_code pre) ids\<close> for the rows \<open>pre\<close> before it. When
  \<^verbatim>\<open>create_stocks\<close> returns, the entry of a matched row has stock 100 for the quantity
  \<^verbatim>\<open>>10\<close>, stock 0 for the quantity \<^verbatim>\<open>1\<close>, and otherwise the integer that \<^verbatim>\<open>int\<close> makes
  of the quantity: for a text of ASCII digits within the limit of the interpreter its
  decimal value, so the number \<open>n\<close> for the digits that \<^verbatim>\<open>str\<close> writes for \<open>n\<close>
  (7 for \<^verbatim>\<open>"7"\<close>, 250 for \<^verbatim>\<open>"250"\<close>). The same holds in both modules.
\<close>

theorem stock_bucketing:
  "(fst (seller_create_stocks I (pre @ w # post) ids) = Inr out
      \<and> watch_code w \<in> set (fold remove1 (map watch_code pre) ids) \<longrightarrow>
      (\<exists>v. \<lparr>offer_id = watch_code w, stock = v\<rparr> \<in> set out
         \<and> (py_str (Kolichestvo w) = ''>10'' \<longrightarrow> v = 100)
         \<and> (py_str (Kolichestvo w) = ''1'' \<longrightarrow> v = 0)
         \<and> (py_str (Kolichestvo w) \<noteq> ''>10'' \<and> py_str (Kolichestvo w) \<noteq> ''1''
              \<longrightarrow> py_int I (Kolichestvo w) = Inr v)
         \<and> (Kolichestvo w = PStr s \<and> s \<noteq> [] \<and> list_all is_digit s \<and> s \<noteq> ''1''
              \<and> (length s \<le> 640 \<or> int_max_str_digits I = 0 \<or> length s \<le> int_max_str_digits I)
              \<longrightarrow> v = int (foldl (\<lambda>a c. a * 10 + digit_val c) 0 s))
         \<and> (Kolichestvo w = PStr (str_nat n) \<and> n \<noteq> 1 \<and> length (str_nat n) \<le> 640
              \<longrightarrow> v = int n)))
   \<and> (fst (market_create_stocks I d (pre @ w # post) ids wh) = Inr mout
      \<and> watch_code w \<in> set (fold remove1 (map watch_code pre) ids) \<longrightarrow>
      (\<exists>v. \<lparr>sku = watch_code w, warehouseId = wh,
             items = [\<lparr>count = v, item_type = ''FIT'', updatedAt = d\<rparr>]\<rparr> \<in> set mout
         \<and> (py_str (Kolichestvo w) = ''>10'' \<longrightarrow> v = 100)
         \<and> (py_str (Kolichestvo w) = ''1'' \<longrightarrow> v = 0)
         \<and> (py_str (Kolichestvo w) \<noteq> ''>10'' \<and> py_str (Kolichestvo w) \<noteq> ''1''
              \<longrightarrow> py_int I (Kolichestvo w) = Inr v)
         \<and> (Kolichestvo w = PStr s \<and> s \<noteq> [] \<and> list_all is_digit s \<and> s \<noteq> ''1''
              \<and> (length s \<le> 640 \<or> int_max_str_digits I = 0 \<or> length s \<le> int_max_str_digits I)
              \<longrightarrow> v = int (foldl (\<lambda>a c. a * 10 + digit_val c) 0 s))
         \<and> (Kolichestvo w = PStr (str_nat n) \<and> n \<noteq> 1 \<and> length (str_nat n) \<le> 640
              \<longrightarrow> v = int n)))
   \<and> py_int I (PStr ''7'') = Inr 7 \<and> py_int I (PStr ''250'') = Inr 250"
proof -
  let ?q = "Kolichestvo w"
  have bucket: "(py_str ?q = ''>10'' \<longrightarrow> v = 100)
         \<and> (py_str ?q = ''1'' \<longrightarrow> v = 0)
         \<and> (py_str ?q \<noteq> ''>10'' \<and> py_str ?q \<noteq> ''1'' \<longrightarrow> py_int I ?q = Inr v)
         \<and> (?q = PStr s \<and> s \<noteq> [] \<and> list_all is_digit s \<and> s \<noteq> ''1''
              \<and> (length s \<le> 640 \<or> int_max_str_digits I = 0 \<or> length s \<le> int_max_str_digits I)
              \<longrightarrow> v = int (foldl (\<lambda>a c. a * 10 + digit_val c) 0 s))
         \<and> (?q = PStr (str_nat n) \<and> n \<noteq> 1 \<and> length (str_nat n) \<le> 640 \<longrightarrow> v = int n)"
    if v: "stock_value I ?q = Inr v" for v
  proof -
    note c = stock_value_cases [OF v]
    have digits: "v = int (foldl (\<lambda>a c. a * 10 + digit_val c) 0 t)"
      if t: "?q = PStr t" "t \<noteq> []" "list_all is_digit t" "t \<noteq> ''1''"
        "length t \<le> 640 \<or> int_max_str_digits I = 0 \<or> length t \<le> int_max_str_digits I"
      for t
    proof -
      from t(2,3) have "is_digit (hd t)" by (cases t) simp_all
      moreover have "\<not> is_digit CHR ''>''" by (simp add: is_digit_def)
      ultimately have "t \<noteq> ''>10''" by auto
      with c t(1,4) have "py_int I (PStr t) = Inr v" by simp
      with py_int_digits [OF t(2,3,5)] show ?thesis by simp
    qed
    have "v = int n" if n: "?q = PStr (str_nat n)" "n \<noteq> 1" "length (str_nat n) \<le> 640"
    proof -
      have "str_nat n \<noteq> ''1''"
      proof
        assume "str_nat n = ''1''"
        then have "foldl (\<lambda>a c. a * 10 + digit_val c) 0 (str_nat n)
            = foldl (\<lambda>a c. a * 10 + digit_val c) 0 ''1''" by simp
        also have "\<dots> = 1" by (simp add: digit_val_def)
        finally have "n = 1" using str_nat_digits [of n] by simp
        with n(2) show False by simp
      qed
      with digits [of "str_nat n"] n(1,3) str_nat_digits [of n] show ?thesis by simp
    qed
    with c digits show ?thesis by blast
  qed
  have seller: "\<exists>v. \<lparr>offer_id = watch_code w, stock = v\<rparr> \<in> set out' \<and> stock_value I ?q = Inr v"
    if "fst (seller_create_stocks I (pre @ w # post) ids) = Inr out'"
      "watch_code w \<in> set (fold remove1 (map watch_code pre) ids)" for out'
    using seller_create_stocks_row [OF that] by blast
  have market: "\<exists>v. \<lparr>sku = watch_code w, warehouseId = wh,
             items = [\<lparr>count = v, item_type = ''FIT'', updatedAt = d\<rparr>]\<rparr> \<in> set mout
         \<and> stock_value I ?q = Inr v"
    if m: "fst (market_create_stocks I d (pre @ w # post) ids wh) = Inr mout"
      "watch_code w \<in> set (fold remove1 (map watch_code pre) ids)"
  proof -
    from m(1) obtain ids' where "market_create_stocks I d (pre @ w # post) ids wh = (Inr mout, ids')"
      by (cases "market_create_stocks I d (pre @ w # post) ids wh") simp
    then obtain out' where out: "seller_create_stocks I (pre @ w # post) ids = (Inr out', ids')"
      and mout: "mout = map (\<lambda>u. market_entry d wh (offer_id u) (stock u)) out'"
      by (auto simp: market_create_stocks_Inr)
    from out m(2) obtain v where v: "stock_value I ?q = Inr v"
      "\<lparr>offer_id = watch_code w, stock = v\<rparr> \<in> set out'"
      using seller [of out'] by auto
    from v(2) have "market_entry d wh (offer_id \<lparr>offer_id = watch_code w, stock = v\<rparr>)
        (stock \<lparr>offer_id = watch_code w, stock = v\<rparr>) \<in> set mout"
      unfolding mout set_map by (rule imageI)
    then have "\<lparr>sku = watch_code w, warehouseId = wh,
             items = [\<lparr>count = v, item_type = ''FIT'', updatedAt = d\<rparr>]\<rparr> \<in> set mout"
      by (simp add: market_entry_def)
    with v(1) show ?thesis by blast
  qed
  have seven: "py_int I (PStr ''7'') = Inr 7"
    by (simp add: int_of_str_def to_ascii_def int_of_digits_def is_space_def is_digit_def
        digit_val_def)
  have more: "py_int I (PStr ''250'') = Inr 250"
    by (simp add: int_of_str_def to_ascii_def int_of_digits_def is_space_def is_digit_def
        digit_val_def)
  show ?thesis
  proof (intro conjI impI)
    assume "fst (seller_create_stocks I (pre @ w # post) ids) = Inr out
      \<and> watch_code w \<in> set (fold remove1 (map watch_code pre) ids)"
    then obtain v where "\<lparr>offer_id = watch_code w, stock = v\<rparr> \<in> set out"
      "stock_value I ?q = Inr v"
      using seller [of out] by blast
    with bucket [of v] show "\<exists>v. \<lparr>offer_id = watch_code w, stock = v\<rparr> \<in> set out
         \<and> (py_str ?q = ''>10'' \<longrightarrow> v = 100)
         \<and> (py_str ?q = ''1'' \<longrightarrow> v = 0)
         \<and> (py_str ?q \<noteq> ''>10'' \<and> py_str ?q \<noteq> ''1'' \<longrightarrow> py_int I ?q = Inr v)
         \<and> (?q = PStr s \<and> s \<noteq> [] \<and> list_all is_digit s \<and> s \<noteq> ''1''
              \<and> (length s \<le> 640 \<or> int_max_str_digits I = 0 \<or> length s \<le> int_max_str_digits I)
              \<longrightarrow> v = int (foldl (\<lambda>a c. a * 10 + digit_val c) 0 s))
         \<and> (?q = PStr (str_nat n) \<and> n \<noteq> 1 \<and> length (str_nat n) \<le> 640 \<longrightarrow> v = int n)"
      by (intro exI [of _ v] conjI) simp_all
  next
    assume "fst (market_create_stocks I d (pre @ w # post) ids wh) = Inr mout
      \<and> watch_code w \<in> set (fold remove1 (map watch_code pre) ids)"
    then obtain v where "\<lparr>sku = watch_code w, warehouseId = wh,
             items = [\<lparr>count = v, item_type = ''FIT'', updatedAt = d\<rparr>]\<rparr> \<in> set mout"
      "stock_value I ?q = Inr v"
      using market by blast
    with bucket [of v] show "\<exists>v. \<lparr>sku = watch_code w, warehouseId = wh,
             items = [\<lparr>count = v, item_type = ''FIT'', updatedAt = d\<rparr>]\<rparr> \<in> set mout
         \<and> (py_str ?q = ''>10'' \<longrightarrow> v = 100)
         \<and> (py_str ?q = ''1'' \<longrightarrow> v = 0)
         \<and> (py_str ?q \<noteq> ''>10'' \<and> py_str ?q \<noteq> ''1'' \<longrightarrow> py_int I ?q = Inr v)
         \<and> (?q = PStr s \<and> s \<noteq> [] \<and> list_all is_digit s \<and> s \<noteq> ''1''
              \<and> (length s \<le> 640 \<or> int_max_str_digits I = 0 \<or> length s \<le> int_max_str_digits I)
              \<longrightarrow> v = int (foldl (\<lambda>a c. a * 10 + digit_val c) 0 s))
         \<and> (?q = PStr (str_nat n) \<and> n \<noteq> 1 \<and> length (str_nat n) \<le> 640 \<longrightarrow> v = int n)"
      by (intro exI [of _ v] conjI) simp_all
  qed (rule seven more)+
qed

theorem stock_bucketing_witness:
  "fst (seller_create_stocks small_interp
          [\<lparr>Kod = PStr ''A'', Kolichestvo = PStr ''>10'', Tsena = PNone\<rparr>,
           \<lparr>Kod = PStr ''B'', Kolichestvo = PInt 1, Tsena = PNone\<rparr>,
           \<lparr>Kod = PStr ''C'', Kolichestvo = PStr ''250'', Tsena = PNone\<rparr>] [''C'', ''B'', ''A''])
     = Inr [\<lparr>offer_id = ''A'', stock = 100\<rparr>, \<lparr>offer_id = ''B'', stock = 0\<rparr>,
            \<lparr>offer_id = ''C'', stock = 250\<rparr>]
   \<and> fst (market_create_stocks small_interp ''t''
          [\<lparr>Kod = PStr ''A'', Kolichestvo = PStr ''>10'', Tsena = PNone\<rparr>,
           \<lparr>Kod = PStr ''B'', Kolichestvo = PInt 1, Tsena = PNone\<rparr>,
           \<lparr>Kod = PStr ''C'', Kolichestvo = PStr ''250'', Tsena = PNone\<rparr>] [''C'', ''B'', ''A''] ''wh'')
     = Inr [\<lparr>sku = ''A'', warehouseId = ''wh'',
              items = [\<lparr>count = 100, item_type = ''FIT'', updatedAt = ''t''\<rparr>]\<rparr>,
            \<lparr>sku = ''B'', warehouseId = ''wh'',
              items = [\<lparr>count = 0, item_type = ''FIT'', updatedAt = ''t''\<rparr>]\<rparr>,
            \<lparr>sku = ''C'', warehouseId = ''wh'',
              items = [\<lparr>count = 250, item_type = ''FIT'', updatedAt = ''t''\<rparr>]\<rparr>]
   \<and> ''A'' \<in> set (fold remove1 (map watch_code []) [''C'', ''B'', ''A''])
   \<and> ''B'' \<in> set (fold remove1
         (map watch_code [\<lparr>Kod = PStr ''A'', Kolichestvo = PStr ''>10'', Tsena = PNone\<rparr>])
         [''C'', ''B'', ''A''])
   \<and> ''C'' \<in> set (fold remove1
         (map watch_code [\<lparr>Kod = PStr ''A'', Kolichestvo = PStr ''>10'', Tsena = PNone\<rparr>,
                          \<lparr>Kod = PStr ''B'', Kolichestvo = PInt 1, Tsena = PNone\<rparr>])
         [''C'', ''B'', ''A''])
   \<and> py_str (PStr ''>10'') = ''>10'' \<and> py_str (PInt 1) = ''1''
   \<and> py_str (PStr ''250'') \<noteq> ''>10'' \<and> py_str (PStr ''250'') \<noteq> ''1''
   \<and> ''250'' \<noteq> [] \<and> list_all is_digit ''250'' \<and> ''250'' \<noteq> ''1'' \<and> length ''250'' \<le> 640
   \<and> str_nat 250 = ''250'' \<and> (250 :: nat) \<noteq> 1
   \<and> py_int small_interp (PStr ''250'') = Inr 250
   \<and> int (foldl (\<lambda>a c. a * 10 + digit_val c) 0 ''250'') = 250"
proof -
  let ?a = "\<lparr>Kod = PStr ''A'', Kolichestvo = PStr ''>10'', Tsena = PNone\<rparr>"
  let ?b = "\<lparr>Kod = PStr ''B'', Kolichestvo = PInt 1, Tsena = PNone\<rparr>"
  let ?c = "\<lparr>Kod = PStr ''C'', Kolichestvo = PStr ''250'', Tsena = PNone\<rparr>"
  let ?ids = "[''C'', ''B'', ''A'']"
  let ?out = "[\<lparr>offer_id = ''A'', stock = 100\<rparr>, \<lparr>offer_id = ''B'', stock = 0\<rparr>,
            \<lparr>offer_id = ''C'', stock = 250\<rparr>]"
  let ?mout = "[\<lparr>sku = ''A'', warehouseId = ''wh'',
              items = [\<lparr>count = 100, item_type = ''FIT'', updatedAt = ''t''\<rparr>]\<rparr>,
            \<lparr>sku = ''B'', warehouseId = ''wh'',
              items = [\<lparr>count = 0, item_type = ''FIT'', updatedAt = ''t''\<rparr>]\<rparr>,
            \<lparr>sku = ''C'', warehouseId = ''wh'',
              items = [\<lparr>count = 250, item_type = ''FIT'', updatedAt = ''t''\<rparr>]\<rparr>]"
  have run: "fst (seller_create_stocks small_interp [?a, ?b, ?c] ?ids) = Inr ?out"
    by code_simp
  have mrun: "fst (market_create_stocks small_interp ''t'' [?a, ?b, ?c] ?ids ''wh'') = Inr ?mout"
    by code_simp
  have one: "py_str (PInt 1) = ''1''"
    by code_simp
  have digits: "list_all is_digit ''250''"
    by code_simp
  have rt: "str_nat 250 = ''250''"
    by code_simp
  have val: "py_int small_interp (PStr ''250'') = Inr 250"
    by code_simp
  have dec: "int (foldl (\<lambda>a c. a * 10 + digit_val c) 0 ''250'') = 250"
    by code_simp
  from stock_bucketing [where I = small_interp and pre = "[]" and w = ?a and post = "[?b, ?c]"
      and ids = ?ids and out = ?out and d = "''t''" and wh = "''wh''" and mout = ?mout
      and s = "''250''" and n = 250]
    stock_bucketing [where I = small_interp and pre = "[?a]" and w = ?b and post = "[?c]"
      and ids = ?ids and out = ?out and d = "''t''" and wh = "''wh''" and mout = ?mout
      and s = "''250''" and n = 250]
    stock_bucketing [where I = small_interp and pre = "[?a, ?b]" and w = ?c and post = "[]"
      and ids = ?ids and out = ?out and d = "''t''" and wh = "''wh''" and mout = ?mout
      and s = "''250''" and n = 250]
    run mrun one digits rt val dec
  show ?thesis by simp
qed



lemma seller_create_stocks_order:
  assumes "seller_create_stocks I ws ids = (Inr out, ids')"
  shows "\<exists>sub ms. out = ms @ map (\<lambda>x. \<lparr>offer_id = x, stock = 0\<rparr>) ids'
      \<and> subseq sub ws
      \<and> list_all2 (\<lambda>w u. \<exists>v. stock_value I (Kolichestvo w) = Inr v
                              \<and> u = \<lparr>offer_id = watch_code w, stock = v\<rparr>) sub ms
      \<and> watch_code ` set sub = watch_code ` set ws \<inter> set ids
      \<and> subseq ids' ids
      \<and> (distinct ids \<longrightarrow> ids' = filter (\<lambda>x. x \<notin> watch_code ` set ws) ids)"
proof (cases I ws ids rule: seller_create_stocks_cases)
  case (Fail e i)
  with assms show ?thesis by simp
next
  case (Return ms i)
  with assms have i: "i = ids'" and out: "out = ms @ map (\<lambda>x. \<lparr>offer_id = x, stock = 0\<rparr>) ids'"
    by auto
  from Return(1) i have run: "seller_match_loop I ws [] ids = (Inr ms, ids')" by simp
  from seller_match_loop_shape [OF run] obtain sub where sub: "subseq sub ws"
    "list_all2 (\<lambda>w u. \<exists>v. stock_value I (Kolichestvo w) = Inr v
                              \<and> u = \<lparr>offer_id = watch_code w, stock = v\<rparr>) sub ms"
    "watch_code ` set sub = watch_code ` set ws \<inter> set ids"
    by blast
  have rest: "ids' = fold remove1 (map watch_code ws) ids"
    using run by (rule seller_match_loop_rest)
  then have "subseq ids' ids" by (simp add: subseq_fold_remove1)
  moreover have "distinct ids \<longrightarrow> ids' = filter (\<lambda>x. x \<notin> watch_code ` set ws) ids"
    using rest by (simp add: distinct_fold_remove1)
  ultimately show ?thesis using out sub by blast
qed

lemma order_via_market_entry:
  "(seller_create_stocks I ws ids = (Inr out, ids') \<longrightarrow>
      (\<exists>sub ms. out = ms @ map (\<lambda>x. \<lparr>offer_id = x, stock = 0\<rparr>) ids'
         \<and> subseq sub ws
         \<and> list_all2 (\<lambda>w u. \<exists>v. stock_value I (Kolichestvo w) = Inr v
                                 \<and> u = \<lparr>offer_id = watch_code w, stock = v\<rparr>) sub ms
         \<and> watch_code ` set sub = watch_code ` set ws \<inter> set ids
         \<and> subseq ids' ids
         \<and> (distinct ids \<longrightarrow> ids' = filter (\<lambda>x. x \<notin> watch_code ` set ws) ids)))
   \<and> (market_create_stocks I d ws ids wh = (Inr mout, ids') \<longrightarrow>
      (\<exists>sub ms. mout = ms @ map (\<lambda>x. market_entry d wh x 0) ids'
         \<and> subseq sub ws
         \<and> list_all2 (\<lambda>w u. \<exists>v. stock_value I (Kolichestvo w) = Inr v
                                 \<and> u = market_entry d wh (watch_code w) v) sub ms
         \<and> watch_code ` set sub = watch_code ` set ws \<inter> set ids
         \<and> subseq ids' ids
         \<and> (distinct ids \<longrightarrow> ids' = filter (\<lambda>x. x \<notin> watch_code ` set ws) ids)))"
proof (intro conjI impI)
  assume "seller_create_stocks I ws ids = (Inr out, ids')"
  then show "\<exists>sub ms. out = ms @ map (\<lambda>x. \<lparr>offer_id = x, stock = 0\<rparr>) ids'
         \<and> subseq sub ws
         \<and> list_all2 (\<lambda>w u. \<exists>v. stock_value I (Kolichestvo w) = Inr v
                                 \<and> u = \<lparr>offer_id = watch_code w, stock = v\<rparr>) sub ms
         \<and> watch_code ` set sub = watch_code ` set ws \<inter> set ids
         \<and> subseq ids' ids
         \<and> (distinct ids \<longrightarrow> ids' = filter (\<lambda>x. x \<notin> watch_code ` set ws) ids)"
    by (rule seller_create_stocks_order)
next
  let ?f = "\<lambda>u. market_entry d wh (offer_id u) (stock u)"
  assume "market_create_stocks I d ws ids wh = (Inr mout, ids')"
  then obtain out where out: "seller_create_stocks I ws ids = (Inr out, ids')"
    and mout: "mout = map ?f out"
    by (auto simp: market_create_stocks_Inr)
  from seller_create_stocks_order [OF out] obtain sub ms
    where o: "out = ms @ map (\<lambda>x. \<lparr>offer_id = x, stock = 0\<rparr>) ids'"
      and sub: "subseq sub ws"
      and all: "list_all2 (\<lambda>w u. \<exists>v. stock_value I (Kolichestvo w) = Inr v
                                 \<and> u = \<lparr>offer_id = watch_code w, stock = v\<rparr>) sub ms"
      and rest: "watch_code ` set sub = watch_code ` set ws \<inter> set ids" "subseq ids' ids"
        "distinct ids \<longrightarrow> ids' = filter (\<lambda>x. x \<notin> watch_code ` set ws) ids"
    by blast
  from o mout have "mout = map ?f ms @ map (\<lambda>x. market_entry d wh x 0) ids'"
    by simp
  moreover from all have "list_all2 (\<lambda>w u. \<exists>v. stock_value I (Kolichestvo w) = Inr v
                                 \<and> u = market_entry d wh (watch_code w) v) sub (map ?f ms)"
    unfolding list_all2_map2 by (rule list_all2_mono) auto
  ultimately show "\<exists>sub ms. mout = ms @ map (\<lambda>x. market_entry d wh x 0) ids'
         \<and> subseq sub ws
         \<and> list_all2 (\<lambda>w u. \<exists>v. stock_value I (Kolichestvo w) = Inr v
                                 \<and> u = market_entry d wh (watch_code w) v) sub ms
         \<and> watch_code ` set sub = watch_code ` set ws \<inter> set ids
         \<and> subseq ids' ids
         \<and> (distinct ids \<longrightarrow> ids' = filter (\<lambda>x. x \<notin> watch_code ` set ws) ids)"
    using sub rest by blast
qed

text \<open>
  Claim C7. The list that \<^verbatim>\<open>create_stocks\<close> returns is the entries of the matched rows,
  in the order of the rows in the stock file, followed by an entry with stock 0 for each
  offer id left in the catalog list, in the order of that list. With a catalog list free
  of duplicates the offer ids left are exactly those that are the code of no row.
\<close>

theorem stocks_order:
  "(seller_create_stocks I ws ids = (Inr out, ids') \<longrightarrow>
      (\<exists>sub ms. out = ms @ map (\<lambda>x. \<lparr>offer_id = x, stock = 0\<rparr>) ids'
         \<and> subseq sub ws
         \<and> list_all2 (\<lambda>w u. \<exists>v. stock_value I (Kolichestvo w) = Inr v
                                 \<and> u = \<lparr>offer_id = watch_code w, stock = v\<rparr>) sub ms
         \<and> watch_code ` set sub = watch_code ` set ws \<inter> set ids
         \<and> subseq ids' ids
         \<and> (distinct ids \<longrightarrow> ids' = filter (\<lambda>x. x \<notin> watch_code ` set ws) ids)))
   \<and> (market_create_stocks I d ws ids wh = (Inr mout, ids') \<longrightarrow>
      (\<exists>sub ms.
         mout = ms @ map (\<lambda>x. \<lparr>sku = x, warehouseId = wh,
                               items = [\<lparr>count = 0, item_type = ''FIT'', updatedAt = d\<rparr>]\<rparr>)
                      ids'
         \<and> subseq sub ws
         \<and> list_all2 (\<lambda>w u. \<exists>v. stock_value I (Kolichestvo w) = Inr v
                 \<and> u = \<lparr>sku = watch_code w, warehouseId = wh,
                        items = [\<lparr>count = v, item_type = ''FIT'', updatedAt = d\<rparr>]\<rparr>)
              sub ms
         \<and> watch_code ` set sub = watch_code ` set ws \<inter> set ids
         \<and> subseq ids' ids
         \<and> (distinct ids \<longrightarrow> ids' = filter (\<lambda>x. x \<notin> watch_code ` set ws) ids)))"
  by (rule order_via_market_entry [unfolded market_entry_def])

theorem stocks_order_witness:
  "seller_create_stocks small_interp
     [\<lparr>Kod = PStr ''B'', Kolichestvo = PStr ''3'', Tsena = PNone\<rparr>,
      \<lparr>Kod = PStr ''X'', Kolichestvo = PStr ''4'', Tsena = PNone\<rparr>,
      \<lparr>Kod = PStr ''A'', Kolichestvo = PStr ''>10'', Tsena = PNone\<rparr>]
     [''D'', ''A'', ''C'', ''B'']
     = (Inr [\<lparr>offer_id = ''B'', stock = 3\<rparr>, \<lparr>offer_id = ''A'', stock = 100\<rparr>,
             \<lparr>offer_id = ''D'', stock = 0\<rparr>, \<lparr>offer_id = ''C'', stock = 0\<rparr>], [''D'', ''C''])
   \<and> market_create_stocks small_interp ''t''
     [\<lparr>Kod = PStr ''B'', Kolichestvo = PStr ''3'', Tsena = PNone\<rparr>,
      \<lparr>Kod = PStr ''X'', Kolichestvo = PStr ''4'', Tsena = PNone\<rparr>,
      \<lparr>Kod = PStr ''A'', Kolichestvo = PStr ''>10'', Tsena = PNone\<rparr>]
     [''D'', ''A'', ''C'', ''B''] ''wh''
     = (Inr [\<lparr>sku = ''B'', warehouseId = ''wh'',
               items = [\<lparr>count = 3, item_type = ''FIT'', updatedAt = ''t''\<rparr>]\<rparr>,
             \<lparr>sku = ''A'', warehouseId = ''wh'',
               items = [\<lparr>count = 100, item_type = ''FIT'', updatedAt = ''t''\<rparr>]\<rparr>,
             \<lparr>sku = ''D'', warehouseId = ''wh'',
               items = [\<lparr>count = 0, item_type = ''FIT'', updatedAt = ''t''\<rparr>]\<rparr>,
             \<lparr>sku = ''C'', warehouseId = ''wh'',
               items = [\<lparr>count = 0, item_type = ''FIT'', updatedAt = ''t''\<rparr>]\<rparr>], [''D'', ''C''])
   \<and> distinct [''D'', ''A'', ''C'', ''B'']
   \<and> [''D'', ''C''] = filter (\<lambda>x. x \<notin> watch_code ` set
        [\<lparr>Kod = PStr ''B'', Kolichestvo = PStr ''3'', Tsena = PNone\<rparr>,
         \<lparr>Kod = PStr ''X'', Kolichestvo = PStr ''4'', Tsena = PNone\<rparr>,
         \<lparr>Kod = PStr ''A'', Kolichestvo = PStr ''>10'', Tsena = PNone\<rparr>]) [''D'', ''A'', ''C'', ''B'']"
proof -
  let ?ws = "[\<lparr>Kod = PStr ''B'', Kolichestvo = PStr ''3'', Tsena = PNone\<rparr>,
      \<lparr>Kod = PStr ''X'', Kolichestvo = PStr ''4'', Tsena = PNone\<rparr>,
      \<lparr>Kod = PStr ''A'', Kolichestvo = PStr ''>10'', Tsena = PNone\<rparr>]"
  let ?ids = "[''D'', ''A'', ''C'', ''B'']"
  let ?out = "[\<lparr>offer_id = ''B'', stock = 3\<rparr>, \<lparr>offer_id = ''A'', stock = 100\<rparr>,
             \<lparr>offer_id = ''D'', stock = 0\<rparr>, \<lparr>offer_id = ''C'', stock = 0\<rparr>]"
  let ?mout = "[\<lparr>sku = ''B'', warehouseId = ''wh'',
               items = [\<lparr>count = 3, item_type = ''FIT'', updatedAt = ''t''\<rparr>]\<rparr>,
             \<lparr>sku = ''A'', warehouseId = ''wh'',
               items = [\<lparr>count = 100, item_type = ''FIT'', updatedAt = ''t''\<rparr>]\<rparr>,
             \<lparr>sku = ''D'', warehouseId = ''wh'',
               items = [\<lparr>count = 0, item_type = ''FIT'', updatedAt = ''t''\<rparr>]\<rparr>,
             \<lparr>sku = ''C'', warehouseId = ''wh'',
               items = [\<lparr>count = 0, item_type = ''FIT'', updatedAt = ''t''\<rparr>]\<rparr>]"
  have run: "seller_create_stocks small_interp ?ws ?ids = (Inr ?out, [''D'', ''C''])"
    by code_simp
  have mrun: "market_create_stocks small_interp ''t'' ?ws ?ids ''wh'' = (Inr ?mout, [''D'', ''C''])"
    by code_simp
  have d: "distinct ?ids" by simp
  from stocks_order [where I = small_interp and ws = ?ws and ids = ?ids and out = ?out
      and ids' = "[''D'', ''C'']" and d = "''t''" and wh = "''wh''" and mout = ?mout] run mrun d
  show ?thesis by blast
qed

section \<open>Price reconciliation\<close>

lemma seller_prices_loop_ids:
  "seller_prices_loop ws acc ids = Inr ps \<Longrightarrow>
   map p_offer_id ps = map p_offer_id acc @ filter (\<lambda>c. c \<in> set ids) (map watch_code ws)"
proof (induction ws arbitrary: acc)
  case Nil
  then show ?case by simp
next
  case (Cons w ws)
  show ?case
  proof (cases "watch_code w \<in> set ids")
    case False
    with Cons show ?thesis by simp
  next
    case True
    with Cons.prems obtain p where "price_conversion (Tsena w) = Inr p"
      and "seller_prices_loop ws
             (acc @ [\<lparr>auto_action_enabled = ''UNKNOWN'', currency_code = ''RUB'',
                        p_offer_id = watch_code w, old_price = ''0'', price = p\<rparr>]) ids = Inr ps"
      by (auto split: sum.splits)
    from Cons.IH [OF this(2)] True show ?thesis by simp
  qed
qed

lemma market_prices_loop_ids:
  "market_prices_loop I ws acc ids = Inr ps \<Longrightarrow>
   map m_id ps = map m_id acc @ filter (\<lambda>c. c \<in> set ids) (map watch_code ws)"
proof (induction ws arbitrary: acc)
  case Nil
  then show ?case by simp
next
  case (Cons w ws)
  show ?case
  proof (cases "watch_code w \<in> set ids")
    case False
    with Cons show ?thesis by simp
  next
    case True
    with Cons.prems obtain v where
      "market_prices_loop I ws
             (acc @ [\<lparr>m_id = watch_code w, m_price = \<lparr>m_value = v, currencyId = ''RUR''\<rparr>\<rparr>]) ids
         = Inr ps"
      by (auto split: sum.splits)
    from Cons.IH [OF this] True show ?thesis by simp
  qed
qed

lemma seller_prices_loop_skip:
  "watch_code w \<notin> set ids \<Longrightarrow>
   seller_prices_loop (pre @ w # post) acc ids = seller_prices_loop (pre @ post) acc ids"
  by (induction pre arbitrary: acc) (simp_all split: sum.splits)

lemma market_prices_loop_skip:
  "watch_code w \<notin> set ids \<Longrightarrow>
   market_prices_loop I (pre @ w # post) acc ids = market_prices_loop I (pre @ post) acc ids"
  by (induction pre arbitrary: acc) (simp_all split: sum.splits)

text \<open>
  Claim C6. \<^verbatim>\<open>create_prices\<close> makes a price entry exactly for the rows whose code (as a
  string) is in the offer ids it is given, in the order of the rows. A row whose code is
  not among them changes nothing: the result, an exception included, is that of the call
  without the row. An offer id that is the code of no row gets no price entry.
\<close>

theorem prices_only_for_catalog_rows:
  "(seller_create_prices ws ids = Inr ps \<longrightarrow>
      map p_offer_id ps = filter (\<lambda>c. c \<in> set ids) (map watch_code ws)
      \<and> (x \<notin> watch_code ` set ws \<longrightarrow> x \<notin> p_offer_id ` set ps))
   \<and> (market_create_prices I ws ids = Inr mps \<longrightarrow>
      map m_id mps = filter (\<lambda>c. c \<in> set ids) (map watch_code ws)
      \<and> (x \<notin> watch_code ` set ws \<longrightarrow> x \<notin> m_id ` set mps))
   \<and> (watch_code w \<notin> set ids \<longrightarrow>
      seller_create_prices (pre @ w # post) ids = seller_create_prices (pre @ post) ids
      \<and> market_create_prices I (pre @ w # post) ids = market_create_prices I (pre @ post) ids)"
proof -
  have s: "map p_offer_id ps = filter (\<lambda>c. c \<in> set ids) (map watch_code ws)"
    if "seller_create_prices ws ids = Inr ps"
    using seller_prices_loop_ids [of ws "[]" ids ps] that by (simp add: seller_create_prices_def)
  have m: "map m_id mps = filter (\<lambda>c. c \<in> set ids) (map watch_code ws)"
    if "market_create_prices I ws ids = Inr mps"
    using market_prices_loop_ids [of I ws "[]" ids mps] that by (simp add: market_create_prices_def)
  have none: "x \<notin> set (filter (\<lambda>c. c \<in> set ids) (map watch_code ws))"
    if "x \<notin> watch_code ` set ws"
    using that by auto
  have "x \<notin> p_offer_id ` set ps"
    if "seller_create_prices ws ids = Inr ps" "x \<notin> watch_code ` set ws"
    using none [OF that(2)] s [OF that(1), symmetric] by (metis set_map)
  moreover have "x \<notin> m_id ` set mps"
    if "market_create_prices I ws ids = Inr mps" "x \<notin> watch_code ` set ws"
    using none [OF that(2)] m [OF that(1), symmetric] by (metis set_map)
  moreover have "seller_create_prices (pre @ w # post) ids = seller_create_prices (pre @ post) ids"
    "market_create_prices I (pre @ w # post) ids = market_create_prices I (pre @ post) ids"
    if "watch_code w \<notin> set ids"
    using that
    by (simp_all add: seller_create_prices_def seller_prices_loop_skip
        market_create_prices_def market_prices_loop_skip)
  ultimately show ?thesis using s m by blast
qed

theorem prices_only_for_catalog_rows_witness:
  "seller_create_prices
     [\<lparr>Kod = PStr ''123'', Kolichestvo = PStr ''10'', Tsena = PStr ''5'990.00''\<rparr>,
      \<lparr>Kod = PStr ''999'', Kolichestvo = PStr ''2'', Tsena = PNone\<rparr>] [''123'', ''456'']
     = Inr [\<lparr>auto_action_enabled = ''UNKNOWN'', currency_code = ''RUB'', p_offer_id = ''123'',
              old_price = ''0'', price = ''5990''\<rparr>]
   \<and> market_create_prices small_interp
     [\<lparr>Kod = PStr ''123'', Kolichestvo = PStr ''10'', Tsena = PStr ''5'990.00''\<rparr>,
      \<lparr>Kod = PStr ''999'', Kolichestvo = PStr ''2'', Tsena = PNone\<rparr>] [''123'', ''456'']
     = Inr [\<lparr>m_id = ''123'', m_price = \<lparr>m_value = 5990, currencyId = ''RUR''\<rparr>\<rparr>]
   \<and> ''456'' \<notin> watch_code ` set
     [\<lparr>Kod = PStr ''123'', Kolichestvo = PStr ''10'', Tsena = PStr ''5'990.00''\<rparr>,
      \<lparr>Kod = PStr ''999'', Kolichestvo = PStr ''2'', Tsena = PNone\<rparr>]
   \<and> ''456'' \<notin> p_offer_id ` set
        [\<lparr>auto_action_enabled = ''UNKNOWN'', currency_code = ''RUB'', p_offer_id = ''123'',
              old_price = ''0'', price = ''5990''\<rparr>]
   \<and> ''456'' \<notin> m_id ` set [\<lparr>m_id = ''123'', m_price = \<lparr>m_value = 5990, currencyId = ''RUR''\<rparr>\<rparr>]
   \<and> watch_code \<lparr>Kod = PStr ''999'', Kolichestvo = PStr ''2'', Tsena = PNone\<rparr>
        \<notin> set [''123'', ''456'']
   \<and> seller_create_prices
     [\<lparr>Kod = PStr ''123'', Kolichestvo = PStr ''10'', Tsena = PStr ''5'990.00''\<rparr>,
      \<lparr>Kod = PStr ''999'', Kolichestvo = PStr ''2'', Tsena = PNone\<rparr>] [''123'', ''456'']
     = seller_create_prices
     [\<lparr>Kod = PStr ''123'', Kolichestvo = PStr ''10'', Tsena = PStr ''5'990.00''\<rparr>] [''123'', ''456'']"
proof -
  let ?a = "\<lparr>Kod = PStr ''123'', Kolichestvo = PStr ''10'', Tsena = PStr ''5'990.00''\<rparr>"
  let ?b = "\<lparr>Kod = PStr ''999'', Kolichestvo = PStr ''2'', Tsena = PNone\<rparr>"
  let ?ids = "[''123'', ''456'']"
  let ?ps = "[\<lparr>auto_action_enabled = ''UNKNOWN'', currency_code = ''RUB'', p_offer_id = ''123'',
              old_price = ''0'', price = ''5990''\<rparr>]"
  let ?mps = "[\<lparr>m_id = ''123'', m_price = \<lparr>m_value = 5990, currencyId = ''RUR''\<rparr>\<rparr>]"
  have r1: "seller_create_prices [?a, ?b] ?ids = Inr ?ps" by code_simp
  have r2: "market_create_prices small_interp [?a, ?b] ?ids = Inr ?mps" by code_simp
  have n1: "''456'' \<notin> watch_code ` set [?a, ?b]" by simp
  have n2: "watch_code ?b \<notin> set ?ids" by simp
  from prices_only_for_catalog_rows [where I = small_interp and ws = "[?a, ?b]" and ids = ?ids
      and ps = ?ps and x = "''456''" and mps = ?mps and w = ?b and pre = "[?a]" and post = "[]"]
    r1 r2 n1 n2
  show ?thesis by simp
qed

section \<open>The offer ids of the entries\<close>

lemma seller_match_loop_subset:
  "seller_match_loop I ws [] ids = (Inr ms, ids') \<Longrightarrow> offer_id ` set ms \<subseteq> set ids"
proof (induction ws arbitrary: ids ms)
  case Nil
  then show ?case by simp
next
  case (Cons w ws)
  show ?case
  proof (cases "watch_code w \<in> set ids")
    case False
    with Cons show ?thesis by (simp add: seller_match_loop_step)
  next
    case True
    with Cons.prems obtain v ms' where ms: "ms = \<lparr>offer_id = watch_code w, stock = v\<rparr> # ms'"
      and run: "seller_match_loop I ws [] (remove1 (watch_code w) ids) = (Inr ms', ids')"
      by (auto simp: seller_match_loop_step split: sum.splits prod.splits)
    from Cons.IH [OF run] have "offer_id ` set ms' \<subseteq> set ids"
      using set_remove1_subset [of "watch_code w" ids] by blast
    with ms True show ?thesis by simp
  qed
qed

lemma seller_create_stocks_ids:
  assumes "fst (seller_create_stocks I ws ids) = Inr out"
  shows "offer_id ` set out \<subseteq> set ids \<and> (distinct ids \<longrightarrow> distinct (map offer_id out))"
proof (cases I ws ids rule: seller_create_stocks_cases)
  case (Fail e i)
  with assms show ?thesis by simp
next
  case (Return ms i)
  with assms have out: "out = ms @ map (\<lambda>x. \<lparr>offer_id = x, stock = 0\<rparr>) i" by simp
  then have ids: "map offer_id out = map offer_id ms @ i" by (simp add: comp_def)
  have rest: "i = fold remove1 (map watch_code ws) ids"
    using Return(1) by (rule seller_match_loop_rest)
  have sub: "set i \<subseteq> set ids" unfolding rest by (rule set_fold_remove1_subset)
  have "set (map offer_id out) \<subseteq> set ids"
    unfolding ids using seller_match_loop_subset [OF Return(1)] sub by simp
  moreover have "distinct (map offer_id out)" if d: "distinct ids"
  proof -
    from seller_match_loop_distinct [OF Return(1) d]
    have "distinct (map offer_id ms)" "set (map offer_id ms) \<inter> set i = {}" by simp_all
    moreover have "distinct i" unfolding rest using d by (simp add: distinct_fold_remove1)
    ultimately show ?thesis unfolding ids by simp
  qed
  ultimately show ?thesis by simp
qed

text \<open>
  Claim C2, as amended. The offer ids of the stock entries and of the price entries are
  offer ids of the catalog list. The stock entries repeat no offer id when the catalog
  list repeats none, whatever the rows; the price entries repeat no offer id when no two
  rows have the same code.
\<close>

theorem offer_ids_within_catalog:
  "(fst (seller_create_stocks I ws ids) = Inr out \<longrightarrow>
      offer_id ` set out \<subseteq> set ids \<and> (distinct ids \<longrightarrow> distinct (map offer_id out)))
   \<and> (fst (market_create_stocks I d ws ids wh) = Inr mout \<longrightarrow>
      sku ` set mout \<subseteq> set ids \<and> (distinct ids \<longrightarrow> distinct (map sku mout)))
   \<and> (seller_create_prices ws ids = Inr ps \<longrightarrow>
      p_offer_id ` set ps \<subseteq> set ids
      \<and> (distinct (map watch_code ws) \<longrightarrow> distinct (map p_offer_id ps)))
   \<and> (market_create_prices I ws ids = Inr mps \<longrightarrow>
      m_id ` set mps \<subseteq> set ids
      \<and> (distinct (map watch_code ws) \<longrightarrow> distinct (map m_id mps)))"
proof -
  have a: "offer_id ` set out \<subseteq> set ids \<and> (distinct ids \<longrightarrow> distinct (map offer_id out))"
    if "fst (seller_create_stocks I ws ids) = Inr out"
    using that by (rule seller_create_stocks_ids)
  have b: "sku ` set mout \<subseteq> set ids \<and> (distinct ids \<longrightarrow> distinct (map sku mout))"
    if "fst (market_create_stocks I d ws ids wh) = Inr mout"
  proof -
    from that obtain ids' where "market_create_stocks I d ws ids wh = (Inr mout, ids')"
      by (cases "market_create_stocks I d ws ids wh") simp
    then obtain out' where out: "seller_create_stocks I ws ids = (Inr out', ids')"
      and mout: "mout = map (\<lambda>u. market_entry d wh (offer_id u) (stock u)) out'"
      by (auto simp: market_create_stocks_Inr)
    have "map sku mout = map offer_id out'"
      unfolding mout by (simp add: market_entry_def comp_def)
    moreover from out have "offer_id ` set out' \<subseteq> set ids
        \<and> (distinct ids \<longrightarrow> distinct (map offer_id out'))"
      by (intro seller_create_stocks_ids [of I ws]) simp
    ultimately show ?thesis by (metis set_map)
  qed
  have c: "p_offer_id ` set ps \<subseteq> set ids
      \<and> (distinct (map watch_code ws) \<longrightarrow> distinct (map p_offer_id ps))"
    if "seller_create_prices ws ids = Inr ps"
  proof -
    from that have eq: "map p_offer_id ps = filter (\<lambda>c. c \<in> set ids) (map watch_code ws)"
      using seller_prices_loop_ids [of ws "[]" ids ps] by (simp add: seller_create_prices_def)
    have "set (map p_offer_id ps) \<subseteq> set ids" unfolding eq by auto
    moreover have "distinct (map watch_code ws) \<longrightarrow> distinct (map p_offer_id ps)"
      unfolding eq by simp
    ultimately show ?thesis by simp
  qed
  have e: "m_id ` set mps \<subseteq> set ids
      \<and> (distinct (map watch_code ws) \<longrightarrow> distinct (map m_id mps))"
    if "market_create_prices I ws ids = Inr mps"
  proof -
    from that have eq: "map m_id mps = filter (\<lambda>c. c \<in> set ids) (map watch_code ws)"
      using market_prices_loop_ids [of I ws "[]" ids mps] by (simp add: market_create_prices_def)
    have "set (map m_id mps) \<subseteq> set ids" unfolding eq by auto
    moreover have "distinct (map watch_code ws) \<longrightarrow> distinct (map m_id mps)"
      unfolding eq by simp
    ultimately show ?thesis by simp
  qed
  from a b c e show ?thesis by blast
qed

theorem offer_ids_within_catalog_witness:
  "fst (seller_create_stocks small_interp
          [\<lparr>Kod = PStr ''A'', Kolichestvo = PStr ''2'', Tsena = PStr ''10.00''\<rparr>,
           \<lparr>Kod = PStr ''A'', Kolichestvo = PStr ''3'', Tsena = PStr ''20.00''\<rparr>,
           \<lparr>Kod = PStr ''B'', Kolichestvo = PStr ''4'', Tsena = PStr ''30.00''\<rparr>] [''A'', ''B'', ''C''])
     = Inr [\<lparr>offer_id = ''A'', stock = 2\<rparr>, \<lparr>offer_id = ''B'', stock = 4\<rparr>,
            \<lparr>offer_id = ''C'', stock = 0\<rparr>]
   \<and> distinct [''A'', ''B'', ''C'']
   \<and> distinct (map offer_id [\<lparr>offer_id = ''A'', stock = 2\<rparr>, \<lparr>offer_id = ''B'', stock = 4\<rparr>,
            \<lparr>offer_id = ''C'', stock = 0\<rparr>])
   \<and> fst (market_create_stocks small_interp ''t''
          [\<lparr>Kod = PStr ''A'', Kolichestvo = PStr ''2'', Tsena = PStr ''10.00''\<rparr>,
           \<lparr>Kod = PStr ''A'', Kolichestvo = PStr ''3'', Tsena = PStr ''20.00''\<rparr>,
           \<lparr>Kod = PStr ''B'', Kolichestvo = PStr ''4'', Tsena = PStr ''30.00''\<rparr>] [''A'', ''B'', ''C''] ''wh'')
     = Inr [\<lparr>sku = ''A'', warehouseId = ''wh'',
            items = [\<lparr>count = 2, item_type = ''FIT'', updatedAt = ''t''\<rparr>]\<rparr>,
            \<lparr>sku = ''B'', warehouseId = ''wh'',
            items = [\<lparr>count = 4, item_type = ''FIT'', updatedAt = ''t''\<rparr>]\<rparr>,
            \<lparr>sku = ''C'', warehouseId = ''wh'',
            items = [\<lparr>count = 0, item_type = ''FIT'', updatedAt = ''t''\<rparr>]\<rparr>]
   \<and> distinct (map sku [\<lparr>sku = ''A'', warehouseId = ''wh'',
            items = [\<lparr>count = 2, item_type = ''FIT'', updatedAt = ''t''\<rparr>]\<rparr>,
            \<lparr>sku = ''B'', warehouseId = ''wh'',
            items = [\<lparr>count = 4, item_type = ''FIT'', updatedAt = ''t''\<rparr>]\<rparr>,
            \<lparr>sku = ''C'', warehouseId = ''wh'',
            items = [\<lparr>count = 0, item_type = ''FIT'', updatedAt = ''t''\<rparr>]\<rparr>])
   \<and> seller_create_prices
          [\<lparr>Kod = PStr ''A'', Kolichestvo = PStr ''2'', Tsena = PStr ''10.00''\<rparr>,
           \<lparr>Kod = PStr ''B'', Kolichestvo = PStr ''4'', Tsena = PStr ''30.00''\<rparr>] [''A'', ''B'', ''C'']
     = Inr [\<lparr>auto_action_enabled = ''UNKNOWN'', currency_code = ''RUB'', p_offer_id = ''A'',
              old_price = ''0'', price = ''10''\<rparr>,
            \<lparr>auto_action_enabled = ''UNKNOWN'', currency_code = ''RUB'', p_offer_id = ''B'',
              old_price = ''0'', price = ''30''\<rparr>]
   \<and> distinct (map watch_code
          [\<lparr>Kod = PStr ''A'', Kolichestvo = PStr ''2'', Tsena = PStr ''10.00''\<rparr>,
           \<lparr>Kod = PStr ''B'', Kolichestvo = PStr ''4'', Tsena = PStr ''30.00''\<rparr>])
   \<and> distinct (map p_offer_id
          [\<lparr>auto_action_enabled = ''UNKNOWN'', currency_code = ''RUB'', p_offer_id = ''A'',
              old_price = ''0'', price = ''10''\<rparr>,
            \<lparr>auto_action_enabled = ''UNKNOWN'', currency_code = ''RUB'', p_offer_id = ''B'',
              old_price = ''0'', price = ''30''\<rparr>])
   \<and> market_create_prices small_interp
          [\<lparr>Kod = PStr ''A'', Kolichestvo = PStr ''2'', Tsena = PStr ''10.00''\<rparr>,
           \<lparr>Kod = PStr ''B'', Kolichestvo = PStr ''4'', Tsena = PStr ''30.00''\<rparr>] [''A'', ''B'', ''C'']
     = Inr [\<lparr>m_id = ''A'', m_price = \<lparr>m_value = 10, currencyId = ''RUR''\<rparr>\<rparr>,
            \<lparr>m_id = ''B'', m_price = \<lparr>m_value = 30, currencyId = ''RUR''\<rparr>\<rparr>]
   \<and> distinct (map m_id [\<lparr>m_id = ''A'', m_price = \<lparr>m_value = 10, currencyId = ''RUR''\<rparr>\<rparr>,
            \<lparr>m_id = ''B'', m_price = \<lparr>m_value = 30, currencyId = ''RUR''\<rparr>\<rparr>])"
proof -
  let ?a = "\<lparr>Kod = PStr ''A'', Kolichestvo = PStr ''2'', Tsena = PStr ''10.00''\<rparr>"
  let ?a' = "\<lparr>Kod = PStr ''A'', Kolichestvo = PStr ''3'', Tsena = PStr ''20.00''\<rparr>"
  let ?b = "\<lparr>Kod = PStr ''B'', Kolichestvo = PStr ''4'', Tsena = PStr ''30.00''\<rparr>"
  let ?ids = "[''A'', ''B'', ''C'']"
  let ?out = "[\<lparr>offer_id = ''A'', stock = 2\<rparr>, \<lparr>offer_id = ''B'', stock = 4\<rparr>,
            \<lparr>offer_id = ''C'', stock = 0\<rparr>]"
  let ?mout = "[\<lparr>sku = ''A'', warehouseId = ''wh'',
            items = [\<lparr>count = 2, item_type = ''FIT'', updatedAt = ''t''\<rparr>]\<rparr>,
            \<lparr>sku = ''B'', warehouseId = ''wh'',
            items = [\<lparr>count = 4, item_type = ''FIT'', updatedAt = ''t''\<rparr>]\<rparr>,
            \<lparr>sku = ''C'', warehouseId = ''wh'',
            items = [\<lparr>count = 0, item_type = ''FIT'', updatedAt = ''t''\<rparr>]\<rparr>]"
  let ?ps = "[\<lparr>auto_action_enabled = ''UNKNOWN'', currency_code = ''RUB'', p_offer_id = ''A'',
              old_price = ''0'', price = ''10''\<rparr>,
            \<lparr>auto_action_enabled = ''UNKNOWN'', currency_code = ''RUB'', p_offer_id = ''B'',
              old_price = ''0'', price = ''30''\<rparr>]"
  let ?mps = "[\<lparr>m_id = ''A'', m_price = \<lparr>m_value = 10, currencyId = ''RUR''\<rparr>\<rparr>,
            \<lparr>m_id = ''B'', m_price = \<lparr>m_value = 30, currencyId = ''RUR''\<rparr>\<rparr>]"
  have r1: "fst (seller_create_stocks small_interp [?a, ?a', ?b] ?ids) = Inr ?out" by code_simp
  have r2: "fst (market_create_stocks small_interp ''t'' [?a, ?a', ?b] ?ids ''wh'') = Inr ?mout" by code_simp
  have r3: "seller_create_prices [?a, ?b] ?ids = Inr ?ps" by code_simp
  have r4: "market_create_prices small_interp [?a, ?b] ?ids = Inr ?mps" by code_simp
  have d1: "distinct ?ids" by simp
  have d2: "distinct (map watch_code [?a, ?b])" by simp
  from offer_ids_within_catalog [where I = small_interp and ws = "[?a, ?a', ?b]" and ids = ?ids
      and out = ?out and d = "''t''" and wh = "''wh''" and mout = ?mout]
    offer_ids_within_catalog [where I = small_interp and ws = "[?a, ?b]" and ids = ?ids
      and ps = ?ps and mps = ?mps]
    r1 r2 r3 r4 d1 d2
  show ?thesis by simp
qed

text \<open>
  Two rows with the same code, a code of the catalog: \<^verbatim>\<open>create_prices\<close> makes two price
  entries with the same offer id.
\<close>

theorem duplicate_price_counterexample:
  "\<not> (seller_create_prices
         [\<lparr>Kod = PStr ''A'', Kolichestvo = PStr ''2'', Tsena = PStr ''10.00''\<rparr>,
          \<lparr>Kod = PStr ''A'', Kolichestvo = PStr ''3'', Tsena = PStr ''20.00''\<rparr>] [''A'']
       = Inr [\<lparr>auto_action_enabled = ''UNKNOWN'', currency_code = ''RUB'', p_offer_id = ''A'',
                old_price = ''0'', price = ''10''\<rparr>,
              \<lparr>auto_action_enabled = ''UNKNOWN'', currency_code = ''RUB'', p_offer_id = ''A'',
                old_price = ''0'', price = ''20''\<rparr>]
       \<longrightarrow> distinct (map p_offer_id
             [\<lparr>auto_action_enabled = ''UNKNOWN'', currency_code = ''RUB'', p_offer_id = ''A'',
                old_price = ''0'', price = ''10''\<rparr>,
              \<lparr>auto_action_enabled = ''UNKNOWN'', currency_code = ''RUB'', p_offer_id = ''A'',
                old_price = ''0'', price = ''20''\<rparr>]))"
  by code_simp

section \<open>What \<^verbatim>\<open>price_conversion\<close> returns\<close>

lemma split_on_not_Nil: "split_on sep s \<noteq> []"
  by (induction s) (auto split: list.splits)

lemma hd_split_on: "hd (split_on sep s) = takeWhile (\<lambda>c. c \<noteq> sep) s"
  by (induction s) (auto simp: split_on_not_Nil split: list.splits)

lemma price_conversion_PStr:
  "price_conversion (PStr s) = Inr (filter is_digit (takeWhile (\<lambda>c. c \<noteq> CHR ''.'') s))"
  by (simp add: hd_split_on re_sub_non_digits_def)

text \<open>
  Claim C4. \<^verbatim>\<open>price_conversion\<close> keeps the digits before the first point: 5990 for
  \<^verbatim>\<open>5'990.00\<close> followed by the Russian abbreviation of the rouble, 12 for \<^verbatim>\<open>12.99\<close>.
  For the empty string and for \<^verbatim>\<open>abc\<close> the claim and the docstring of the function say 0;
  the function returns the empty string, which \<^verbatim>\<open>seller.py\<close> sends as the price and on
  which \<^verbatim>\<open>int\<close> raises \<^verbatim>\<open>ValueError\<close> in \<^verbatim>\<open>market.py\<close>.
\<close>

theorem price_conversion_no_digits:
  "price_conversion (PStr '''') = Inr ''''
   \<and> price_conversion (PStr ''abc'') = Inr ''''
   \<and> py_int I (PStr '''') = Inl ValueError
   \<and> seller_create_prices [\<lparr>Kod = PStr ''A'', Kolichestvo = PStr ''2'', Tsena = PStr ''abc''\<rparr>]
        [''A'']
      = Inr [\<lparr>auto_action_enabled = ''UNKNOWN'', currency_code = ''RUB'', p_offer_id = ''A'',
               old_price = ''0'', price = ''''\<rparr>]
   \<and> market_create_prices I [\<lparr>Kod = PStr ''A'', Kolichestvo = PStr ''2'', Tsena = PStr ''abc''\<rparr>]
        [''A'']
      = Inl ValueError
   \<and> price_conversion
        (PStr (''5'990.00 '' @ [CHR 0xD1, CHR 0x80, CHR 0xD1, CHR 0x83, CHR 0xD0, CHR 0xB1] @ ''.''))
      = Inr ''5990''
   \<and> price_conversion (PStr ''12.99'') = Inr ''12''"
  by (simp add: market_create_prices_def seller_create_prices_def re_sub_non_digits_def
      int_of_str_def to_ascii_def is_digit_def)

section \<open>The clock and the list of the caller\<close>

lemma market_entry_fields:
  "sku (market_entry d wh s c) = s" "warehouseId (market_entry d wh s c) = wh"
  "map (\<lambda>i. (count i, item_type i)) (items (market_entry d wh s c)) = [(c, ''FIT'')]"
  "map updatedAt (items (market_entry d wh s c)) = [d]"
  by (simp_all add: market_entry_def)

text \<open>
  Claim C9, as amended. Two runs of \<^verbatim>\<open>create_stocks\<close> of \<^verbatim>\<open>market.py\<close> on the same
  arguments return entries with the same \<^verbatim>\<open>sku\<close>, \<^verbatim>\<open>warehouseId\<close>, \<^verbatim>\<open>count\<close> and
  \<^verbatim>\<open>type\<close> in the same order, or the same exception, and leave the same offer ids;
  \<^verbatim>\<open>updatedAt\<close> of every entry is the reading of the clock of its run. But for that
  stamp and the warehouse, the entries are those of \<^verbatim>\<open>create_stocks\<close> of \<^verbatim>\<open>seller.py\<close>,
  which reads no clock.
\<close>

theorem stocks_determined_up_to_clock:
  "map_sum (\<lambda>e. e)
      (map (\<lambda>u. (sku u, warehouseId u, map (\<lambda>i. (count i, item_type i)) (items u))))
      (fst (market_create_stocks I d ws ids wh))
     = map_sum (\<lambda>e. e)
      (map (\<lambda>u. (sku u, warehouseId u, map (\<lambda>i. (count i, item_type i)) (items u))))
      (fst (market_create_stocks I d' ws ids wh))
   \<and> snd (market_create_stocks I d ws ids wh) = snd (market_create_stocks I d' ws ids wh)
   \<and> (fst (market_create_stocks I d ws ids wh) = Inr mout \<and> u \<in> set mout
        \<longrightarrow> map updatedAt (items u) = [d])
   \<and> fst (market_create_stocks I d ws ids wh)
     = map_sum (\<lambda>e. e)
         (map (\<lambda>u. \<lparr>sku = offer_id u, warehouseId = wh,
                     items = [\<lparr>count = stock u, item_type = ''FIT'', updatedAt = d\<rparr>]\<rparr>))
         (fst (seller_create_stocks I ws ids))
   \<and> snd (market_create_stocks I d ws ids wh) = snd (seller_create_stocks I ws ids)"
proof -
  let ?v = "\<lambda>u. (sku u, warehouseId u, map (\<lambda>i. (count i, item_type i)) (items u))"
  have view: "map_sum (\<lambda>e. e) (map ?v) (fst (market_create_stocks I t ws ids wh))
      = map_sum (\<lambda>e. e) (map (\<lambda>u. (offer_id u, wh, [(stock u, ''FIT'')])))
          (fst (seller_create_stocks I ws ids))" for t
    by (cases "fst (seller_create_stocks I ws ids)")
      (simp_all add: market_create_stocks_sim market_entry_fields comp_def)
  have rest: "snd (market_create_stocks I t ws ids wh) = snd (seller_create_stocks I ws ids)" for t
    by (simp add: market_create_stocks_sim)
  have stamp: "map updatedAt (items u) = [d]"
    if "fst (market_create_stocks I d ws ids wh) = Inr mout" "u \<in> set mout"
  proof -
    from that(1) obtain ids'' where "market_create_stocks I d ws ids wh = (Inr mout, ids'')"
      by (cases "market_create_stocks I d ws ids wh") simp
    then obtain out where "seller_create_stocks I ws ids = (Inr out, ids'')"
      and "mout = map (\<lambda>u. market_entry d wh (offer_id u) (stock u)) out"
      by (auto simp: market_create_stocks_Inr)
    with that(2) show ?thesis by (auto simp: market_entry_fields)
  qed
  have image: "fst (market_create_stocks I d ws ids wh)
     = map_sum (\<lambda>e. e)
         (map (\<lambda>u. \<lparr>sku = offer_id u, warehouseId = wh,
                     items = [\<lparr>count = stock u, item_type = ''FIT'', updatedAt = d\<rparr>]\<rparr>))
         (fst (seller_create_stocks I ws ids))"
    by (simp add: market_create_stocks_sim market_entry_def)
  from view [of d] view [of d'] rest [of d] rest [of d'] stamp image show ?thesis
    by (intro conjI impI) (simp_all only:)
qed

theorem stocks_determined_up_to_clock_witness:
  "fst (market_create_stocks small_interp ''2024-05-01T10:00:00Z''
          [\<lparr>Kod = PStr ''A'', Kolichestvo = PStr ''7'', Tsena = PStr ''10.00''\<rparr>]
          [''A'', ''B''] ''wh'')
     = Inr [\<lparr>sku = ''A'', warehouseId = ''wh'',
              items = [\<lparr>count = 7, item_type = ''FIT'', updatedAt = ''2024-05-01T10:00:00Z''\<rparr>]\<rparr>,
            \<lparr>sku = ''B'', warehouseId = ''wh'',
              items = [\<lparr>count = 0, item_type = ''FIT'', updatedAt = ''2024-05-01T10:00:00Z''\<rparr>]\<rparr>]
   \<and> \<lparr>sku = ''B'', warehouseId = ''wh'',
        items = [\<lparr>count = 0, item_type = ''FIT'', updatedAt = ''2024-05-01T10:00:00Z''\<rparr>]\<rparr>
       \<in> set [\<lparr>sku = ''A'', warehouseId = ''wh'',
              items = [\<lparr>count = 7, item_type = ''FIT'', updatedAt = ''2024-05-01T10:00:00Z''\<rparr>]\<rparr>,
            \<lparr>sku = ''B'', warehouseId = ''wh'',
              items = [\<lparr>count = 0, item_type = ''FIT'', updatedAt = ''2024-05-01T10:00:00Z''\<rparr>]\<rparr>]
   \<and> map updatedAt (items \<lparr>sku = ''B'', warehouseId = ''wh'',
        items = [\<lparr>count = 0, item_type = ''FIT'', updatedAt = ''2024-05-01T10:00:00Z''\<rparr>]\<rparr>)
     = [''2024-05-01T10:00:00Z'']
   \<and> map_sum (\<lambda>e. e)
          (map (\<lambda>u. (sku u, warehouseId u, map (\<lambda>i. (count i, item_type i)) (items u))))
          (fst (market_create_stocks small_interp ''2024-05-01T10:00:00Z''
             [\<lparr>Kod = PStr ''A'', Kolichestvo = PStr ''7'', Tsena = PStr ''10.00''\<rparr>]
             [''A'', ''B''] ''wh''))
     = map_sum (\<lambda>e. e)
          (map (\<lambda>u. (sku u, warehouseId u, map (\<lambda>i. (count i, item_type i)) (items u))))
          (fst (market_create_stocks small_interp ''2024-05-01T10:00:01Z''
             [\<lparr>Kod = PStr ''A'', Kolichestvo = PStr ''7'', Tsena = PStr ''10.00''\<rparr>]
             [''A'', ''B''] ''wh''))"
proof -
  let ?ws = "[\<lparr>Kod = PStr ''A'', Kolichestvo = PStr ''7'', Tsena = PStr ''10.00''\<rparr>]"
  let ?d = "''2024-05-01T10:00:00Z''"
  let ?b = "\<lparr>sku = ''B'', warehouseId = ''wh'',
        items = [\<lparr>count = 0, item_type = ''FIT'', updatedAt = ?d\<rparr>]\<rparr>"
  let ?mout = "[\<lparr>sku = ''A'', warehouseId = ''wh'',
              items = [\<lparr>count = 7, item_type = ''FIT'', updatedAt = ?d\<rparr>]\<rparr>, ?b]"
  have run: "fst (market_create_stocks small_interp ?d ?ws [''A'', ''B''] ''wh'') = Inr ?mout"
    by code_simp
  note t = stocks_determined_up_to_clock [where I = small_interp and d = ?d
      and d' = "''2024-05-01T10:00:01Z''" and ws = ?ws and ids = "[''A'', ''B'']"
      and wh = "''wh''" and mout = ?mout and u = ?b]
  from t [THEN conjunct1] t [THEN conjunct2, THEN conjunct2, THEN conjunct1] run
  show ?thesis by simp
qed

text \<open>Two runs of \<^verbatim>\<open>create_stocks\<close> of \<^verbatim>\<open>market.py\<close> one second apart differ.\<close>

theorem clock_counterexample:
  "fst (market_create_stocks small_interp ''2024-05-01T10:00:00Z''
          [\<lparr>Kod = PStr ''A'', Kolichestvo = PStr ''7'', Tsena = PStr ''10.00''\<rparr>] [''A''] ''wh'')
   \<noteq> fst (market_create_stocks small_interp ''2024-05-01T10:00:01Z''
          [\<lparr>Kod = PStr ''A'', Kolichestvo = PStr ''7'', Tsena = PStr ''10.00''\<rparr>] [''A''] ''wh'')"
  by code_simp

text \<open>
  Claim C10. \<^verbatim>\<open>create_stocks\<close> removes the matched offer ids from the list of its caller:
  for the row with code 123 and the catalog 123, 456 the list is left as 456 alone, in
  both modules. \<^verbatim>\<open>main\<close> of \<^verbatim>\<open>seller.py\<close> passes that list on to \<^verbatim>\<open>create_prices\<close>, which
  then makes no price entry, where the catalog as fetched gives the price 5990 for 123.
\<close>

theorem create_stocks_consumes_offer_ids:
  "snd (seller_create_stocks I
          [\<lparr>Kod = PStr ''123'', Kolichestvo = PStr ''10'',
             Tsena = PStr (''5'990.00 '' @ [CHR 0xD1, CHR 0x80, CHR 0xD1, CHR 0x83, CHR 0xD0, CHR 0xB1]
                           @ ''.'')\<rparr>] [''123'', ''456''])
     = [''456'']
   \<and> snd (market_create_stocks I ''2024-05-01T10:00:00Z''
          [\<lparr>Kod = PStr ''123'', Kolichestvo = PStr ''10'',
             Tsena = PStr (''5'990.00 '' @ [CHR 0xD1, CHR 0x80, CHR 0xD1, CHR 0x83, CHR 0xD0, CHR 0xB1]
                           @ ''.'')\<rparr>] [''123'', ''456''] ''wh'')
     = [''456'']
   \<and> seller_create_prices
          [\<lparr>Kod = PStr ''123'', Kolichestvo = PStr ''10'',
             Tsena = PStr (''5'990.00 '' @ [CHR 0xD1, CHR 0x80, CHR 0xD1, CHR 0x83, CHR 0xD0, CHR 0xB1]
                           @ ''.'')\<rparr>] [''123'', ''456'']
     = Inr [\<lparr>auto_action_enabled = ''UNKNOWN'', currency_code = ''RUB'', p_offer_id = ''123'',
              old_price = ''0'', price = ''5990''\<rparr>]
   \<and> seller_main_reconcile I
          [\<lparr>Kod = PStr ''123'', Kolichestvo = PStr ''10'',
             Tsena = PStr (''5'990.00 '' @ [CHR 0xD1, CHR 0x80, CHR 0xD1, CHR 0x83, CHR 0xD0, CHR 0xB1]
                           @ ''.'')\<rparr>] [''123'', ''456'']
     = Inr ([\<lparr>offer_id = ''123'', stock = 10\<rparr>, \<lparr>offer_id = ''456'', stock = 0\<rparr>], [])"
  by (simp add: seller_main_reconcile_def seller_create_stocks_def market_create_stocks_def
      seller_create_prices_def seller_match_loop.simps(2) stock_value_def list_remove_def
      re_sub_non_digits_def int_of_str_def int_of_digits_def to_ascii_def is_digit_def
      is_space_def digit_val_def)

end
